theory Spec2Isabelle
  imports Main "HOL-Library.Sublist"
begin

section \<open>Strings\<close>

text \<open>
  Python's \<open>str\<close> is a sequence of code points, and \<open>len\<close> counts them. The model is
  \<open>string\<close>, over a repertoire of 256 code points: a character stands for the code point
  of its number, with two exceptions. The characters \<open>0x80\<close> and \<open>0x81\<close> stand for U+0130
  (capital I with dot above) and U+0307 (combining dot above), not for the control
  characters U+0080 and U+0081. U+0130 is the code point that \<open>str.lower\<close> maps to two code
  points, U+0069 U+0307: with it in the repertoire, lower-casing can make a text longer,
  as it can in Python. On this repertoire the whitespace of \<open>\s\<close> and of \<open>str.strip\<close> is
  the set given by \<open>isspace\<close>.
\<close>

definition isspace :: "char \<Rightarrow> bool" where
  "isspace c = ((of_char c :: nat) \<in> {9, 10, 11, 12, 13, 28, 29, 30, 31, 32, 133, 160})"

definition dotted_I :: char where
  "dotted_I = CHR 0x80"

definition dot_above :: char where
  "dot_above = CHR 0x81"

text \<open>The lower-casing of one code point to one code point, which the regular expression
  engine applies to both sides under \<open>re.IGNORECASE\<close>: the letters \<open>A\<close> to \<open>Z\<close> and U+00C0 to
  U+00DE without U+00D7 move by 32, and U+0130 becomes \<open>i\<close>.\<close>

definition tolower :: "char \<Rightarrow> char" where
  "tolower c =
     (if c = dotted_I then CHR ''i''
      else
        (let n = (of_char c :: nat)
         in if (65 \<le> n \<and> n \<le> 90) \<or> (192 \<le> n \<and> n \<le> 222 \<and> n \<noteq> 215)
            then char_of (n + 32) else c))"

text \<open>\<open>str.lower()\<close>: the same, but U+0130 becomes the two code points U+0069 U+0307.\<close>

definition lower_char :: "char \<Rightarrow> string" where
  "lower_char c = (if c = dotted_I then [CHR ''i'', dot_above] else [tolower c])"

definition lower :: "string \<Rightarrow> string" where
  "lower s = concat (map lower_char s)"

text \<open>\<open>str.strip()\<close>: whitespace removed at both ends.\<close>

definition strip :: "string \<Rightarrow> string" where
  "strip s = rev (dropWhile isspace (rev (dropWhile isspace s)))"

text \<open>\<open>re.sub(r"\s+", " ", text)\<close>: every maximal run of whitespace becomes one space.\<close>

function re_sub_ws :: "string \<Rightarrow> string" where
  "re_sub_ws [] = []"
| "re_sub_ws (c # cs) =
     (if isspace c then CHR '' '' # re_sub_ws (dropWhile isspace cs)
      else c # re_sub_ws cs)"
  by pat_completeness auto
termination
  by (relation "measure length") (auto simp: length_dropWhile_le less_Suc_eq_le)

definition clean_text :: "string \<Rightarrow> string" where
  "clean_text text = strip (re_sub_ws text)"

text \<open>\<open>sep.join(xs)\<close>.\<close>

fun join :: "string \<Rightarrow> string list \<Rightarrow> string" where
  "join sep [] = []"
| "join sep [x] = x"
| "join sep (x # y # ys) = x @ sep @ join sep (y # ys)"

text \<open>\<open>sub in s\<close> is \<open>sublist sub s\<close>. \<open>s.find(sub)\<close> is the least index where \<open>sub\<close>
  starts in \<open>s\<close>, or \<open>-1\<close>.\<close>

fun find_from :: "nat \<Rightarrow> string \<Rightarrow> string \<Rightarrow> int" where
  "find_from i sub [] = (if sub = [] then int i else - 1)"
| "find_from i sub (c # cs) =
     (if prefix sub (c # cs) then int i else find_from (Suc i) sub cs)"

definition str_find :: "string \<Rightarrow> string \<Rightarrow> int" where
  "str_find s sub = find_from 0 sub s"

text \<open>\<open>s[a:b]\<close> with Python's treatment of negative and out-of-range bounds.\<close>

definition slice_index :: "nat \<Rightarrow> int \<Rightarrow> nat" where
  "slice_index n i = (if i < 0 then nat (max 0 (int n + i)) else min (nat i) n)"

definition slice :: "string \<Rightarrow> int \<Rightarrow> int \<Rightarrow> string" where
  "slice s a b = drop (slice_index (length s) a) (take (slice_index (length s) b) s)"

section \<open>The parsed document\<close>

text \<open>
  The tree the parser returns: text nodes and tags with a name, attributes and children.
  Comments and other special strings are not part of the model.
\<close>

datatype node =
  NavigableString string
| Tag (tag_name: string) (tag_attrs: "(string \<times> string) list") (tag_contents: "node list")

text \<open>
  A tag as the code holds it, with the navigation the code uses: the siblings after it and
  its parent. The root is the \<open>BeautifulSoup\<close> object, whose name is \<open>[document]\<close> and whose
  parent is \<open>None\<close>.
\<close>

datatype element =
  BeautifulSoup "node list"
| Child string "(string \<times> string) list" "node list" "node list" element

fun name :: "element \<Rightarrow> string" where
  "name (BeautifulSoup cs) = ''[document]''"
| "name (Child n a cs sibs p) = n"

fun contents :: "element \<Rightarrow> node list" where
  "contents (BeautifulSoup cs) = cs"
| "contents (Child n a cs sibs p) = cs"

fun parent :: "element \<Rightarrow> element option" where
  "parent (BeautifulSoup cs) = None"
| "parent (Child n a cs sibs p) = Some p"

fun next_siblings :: "element \<Rightarrow> node list" where
  "next_siblings (BeautifulSoup cs) = []"
| "next_siblings (Child n a cs sibs p) = sibs"

text \<open>The strings below a list of nodes, in document order.\<close>

fun all_strings :: "node list \<Rightarrow> string list" where
  "all_strings [] = []"
| "all_strings (NavigableString s # rest) = s # all_strings rest"
| "all_strings (Tag n a cs # rest) = all_strings cs @ all_strings rest"

text \<open>\<open>get_text(separator, strip)\<close> of a tag with the given children.\<close>

definition get_text :: "string \<Rightarrow> bool \<Rightarrow> node list \<Rightarrow> string" where
  "get_text separator strp cs =
     join separator
       (if strp then filter (\<lambda>s. s \<noteq> []) (map strip (all_strings cs)) else all_strings cs)"

text \<open>\<open>find_all(names)\<close>: the tags below, in document order, whose name is listed and that
  pass the attribute test.\<close>

fun find_all :: "string list \<Rightarrow> ((string \<times> string) list \<Rightarrow> bool) \<Rightarrow> node list \<Rightarrow> node list" where
  "find_all names ok [] = []"
| "find_all names ok (NavigableString s # rest) = find_all names ok rest"
| "find_all names ok (Tag n a cs # rest) =
     (if n \<in> set names \<and> ok a then [Tag n a cs] else [])
       @ find_all names ok cs @ find_all names ok rest"

text \<open>\<open>find_parent(nm)\<close>: the nearest tag strictly above the element that has the name.\<close>

fun find_parent :: "string \<Rightarrow> element \<Rightarrow> element option" where
  "find_parent nm (BeautifulSoup cs) = None"
| "find_parent nm (Child n a cs sibs p) = (if name p = nm then Some p else find_parent nm p)"

text \<open>\<open>find_next_sibling()\<close>: the first tag among the following siblings.\<close>

fun first_tag :: "node list \<Rightarrow> node option" where
  "first_tag [] = None"
| "first_tag (NavigableString s # rest) = first_tag rest"
| "first_tag (Tag n a cs # rest) = Some (Tag n a cs)"

definition find_next_sibling :: "element \<Rightarrow> node option" where
  "find_next_sibling e = first_tag (next_siblings e)"

text \<open>\<open>find_all(string=re.compile(re.escape(kw), re.IGNORECASE))\<close>: the text nodes in
  which the keyword occurs, letter case ignored, in document order. A match is returned as
  its string and its parent, the only thing the code reads from it.\<close>

definition re_search :: "string \<Rightarrow> string \<Rightarrow> bool" where
  "re_search kw s = sublist (map tolower kw) (map tolower s)"

fun find_strings :: "string \<Rightarrow> element \<Rightarrow> node list \<Rightarrow> (string \<times> element) list" where
  "find_strings kw e [] = []"
| "find_strings kw e (NavigableString s # rest) =
     (if re_search kw s then [(s, e)] else []) @ find_strings kw e rest"
| "find_strings kw e (Tag n a cs # rest) =
     find_strings kw (Child n a cs rest e) cs @ find_strings kw e rest"

section \<open>The context classifier\<close>

datatype context_type = TableRow | SectionHeader | ListItem | TextBlock

text \<open>The value the code stores under \<open>"type"\<close>.\<close>

fun type_label :: "context_type \<Rightarrow> string" where
  "type_label TableRow = ''Table Row''"
| "type_label SectionHeader = ''Section Header''"
| "type_label ListItem = ''List Item''"
| "type_label TextBlock = ''Text Block''"

text \<open>The dictionary \<open>{"keyword": kw, "context": block_text, "type": context_type}\<close>.\<close>

record item =
  item_keyword :: string
  item_context :: string
  item_type :: context_type

definition header_tags :: "string list" where
  "header_tags = [''dt'', ''b'', ''strong'', ''h1'', ''h2'', ''h3'', ''h4'', ''h5'', ''h6'']"

text \<open>Rule 1: the cells of the row, each cleaned, joined with \<open>" | "\<close>.\<close>

definition table_row_text :: "element \<Rightarrow> string" where
  "table_row_text tr =
     join '' | ''
       (map (\<lambda>td. clean_text (get_text [] False [td]))
          (find_all [''td'', ''th''] (\<lambda>a. True) (contents tr)))"

text \<open>
  Rule 2. The code reads \<open>element.parent.get_text()\<close> in the fallback; the element has one
  of the header names, so it is not the root and has a parent (\<open>name\<close> of the root is
  \<open>[document]\<close>). The function is given for such elements only.
\<close>

fun section_header_text :: "element \<Rightarrow> string" where
  "section_header_text (Child n a cs sibs p) =
     (let header = clean_text (get_text [] False cs);
          next_node = find_next_sibling (Child n a cs sibs p);
          val = (case next_node of
                   Some nx \<Rightarrow> clean_text (get_text [] False [nx])
                 | None \<Rightarrow> [])
      in if val \<noteq> [] then header @ '': '' @ val
         else clean_text (get_text [] False (contents p)))"

text \<open>Rule 4: the walk up to the container, and the truncation.\<close>

fun find_container :: "element \<Rightarrow> element" where
  "find_container (BeautifulSoup cs) = BeautifulSoup cs"
| "find_container (Child n a cs sibs p) =
     (if n \<in> set [''p'', ''div'', ''article''] then Child n a cs sibs p
      else if name p = ''body'' then p
      else find_container p)"

definition truncated :: "string \<Rightarrow> string \<Rightarrow> string" where
  "truncated kw block_text =
     (if length block_text > 300 then
        (let start_idx = str_find (lower block_text) (lower kw);
             start = max 0 (start_idx - 50);
             stop = min (int (length block_text)) (start_idx + 150)
         in ''...'' @ slice block_text start stop @ ''...'')
      else block_text)"

text \<open>The body of the loop over the matches up to the post-filter: the snippet and the
  type of one match, whose parent is \<open>element\<close>.\<close>

definition classify :: "string \<Rightarrow> element \<Rightarrow> string \<times> context_type" where
  "classify kw element =
     (case find_parent ''tr'' element of
        Some tr \<Rightarrow> (table_row_text tr, TableRow)
      | None \<Rightarrow>
          if name element \<in> set header_tags then (section_header_text element, SectionHeader)
          else
            (case find_parent ''li'' element of
               Some li \<Rightarrow> (clean_text (get_text '' '' False (contents li)), ListItem)
             | None \<Rightarrow>
                 (truncated kw
                    (clean_text (get_text '' '' False (contents (find_container element)))),
                  TextBlock)))"

text \<open>The post-filter of the code: shorter than 3 characters, or mentions copyright.\<close>

definition discarded :: "string \<Rightarrow> bool" where
  "discarded block_text =
     (length block_text < 3 \<or> sublist ''copyright'' (lower block_text))"

text \<open>The loop over the matches of one keyword, on the state \<open>(results, seen_blocks)\<close>.\<close>

fun match_loop ::
  "string \<Rightarrow> (string \<times> element) list \<Rightarrow> item list \<times> string set \<Rightarrow> item list \<times> string set" where
  "match_loop kw [] (results, seen_blocks) = (results, seen_blocks)"
| "match_loop kw (m # ms) (results, seen_blocks) =
     (let (block_text, context_type) = classify kw (snd m)
      in if discarded block_text then match_loop kw ms (results, seen_blocks)
         else if block_text \<notin> seen_blocks then
           match_loop kw ms
             (results @ [\<lparr>item_keyword = kw, item_context = block_text, item_type = context_type\<rparr>],
              insert block_text seen_blocks)
         else match_loop kw ms (results, seen_blocks))"

text \<open>The loop over the keywords: \<open>seen_blocks\<close> starts empty for each keyword.\<close>

fun keyword_loop :: "node list \<Rightarrow> string list \<Rightarrow> item list \<Rightarrow> item list" where
  "keyword_loop soup [] results = results"
| "keyword_loop soup (kw # kws) results =
     keyword_loop soup kws
       (fst (match_loop kw (find_strings kw (BeautifulSoup soup) soup) (results, {})))"

definition get_structured_data :: "node list \<Rightarrow> string list \<Rightarrow> item list" where
  "get_structured_data soup keywords = keyword_loop soup keywords []"

section \<open>The collaborators\<close>

text \<open>
  What the code calls and does not define: the fetcher (\<open>requests.get\<close>, which returns a
  response or raises), the parser (\<open>BeautifulSoup(text, "html.parser")\<close>, \<open>None\<close> when it
  raises), \<open>urljoin\<close> and the \<open>netloc\<close> of \<open>urlparse\<close> (\<open>None\<close> for the \<open>ValueError\<close> they
  raise on a malformed address), and the order in which Python iterates over a set of
  strings, which the language leaves open.
\<close>

record response =
  status_code :: nat
  response_text :: string

datatype exn = Exception string

record world =
  requests_get :: "string \<Rightarrow> exn + response"
  html_parser :: "string \<Rightarrow> node list option"
  urljoin :: "string \<Rightarrow> string \<Rightarrow> string option"
  netloc :: "string \<Rightarrow> string option"
  set_order :: "string set \<Rightarrow> string list"

section \<open>The link relevance filter\<close>

text \<open>The loop over the keywords for one link, left at the first keyword that occurs in
  the lower-cased anchor text or in the lower-cased href.\<close>

fun keyword_hit :: "string list \<Rightarrow> string \<Rightarrow> string \<Rightarrow> bool" where
  "keyword_hit [] text href = False"
| "keyword_hit (kw # kws) text href =
     (if sublist (lower kw) text \<or> sublist (lower kw) (lower href) then True
      else keyword_hit kws text href)"

text \<open>The loop over the anchors, on the state \<open>relevant_links\<close>. An exception of the
  address library ends it.\<close>

fun link_loop ::
  "world \<Rightarrow> string \<Rightarrow> string \<Rightarrow> string list \<Rightarrow> node list \<Rightarrow> string set \<Rightarrow> exn + string set" where
  "link_loop w base_url domain keywords [] relevant_links = Inr relevant_links"
| "link_loop w base_url domain keywords (link # links) relevant_links =
     (case map_of (tag_attrs link) ''href'' of
        None \<Rightarrow> Inl (Exception ''KeyError'')
      | Some href \<Rightarrow>
          (let text = lower (get_text '' '' True [link])
           in case urljoin w base_url href of
                None \<Rightarrow> Inl (Exception ''ValueError'')
              | Some full_url \<Rightarrow>
                  (case netloc w full_url of
                     None \<Rightarrow> Inl (Exception ''ValueError'')
                   | Some d \<Rightarrow>
                       if d \<noteq> domain then
                         link_loop w base_url domain keywords links relevant_links
                       else if keyword_hit keywords text href then
                         link_loop w base_url domain keywords links
                           (insert full_url relevant_links)
                       else link_loop w base_url domain keywords links relevant_links)))"

definition find_relevant_links ::
  "world \<Rightarrow> string \<Rightarrow> node list \<Rightarrow> string list \<Rightarrow> exn + string set" where
  "find_relevant_links w base_url soup keywords =
     (case netloc w base_url of
        None \<Rightarrow> Inl (Exception ''ValueError'')
      | Some domain \<Rightarrow>
          link_loop w base_url domain keywords
            (find_all [''a''] (\<lambda>a. map_of a ''href'' \<noteq> None) soup) {})"

section \<open>The crawl orchestrator\<close>

text \<open>\<open>for tag in soup(names): tag.decompose()\<close>: every tag with a listed name is removed
  with all that is below it.\<close>

fun decompose :: "string list \<Rightarrow> node list \<Rightarrow> node list" where
  "decompose names [] = []"
| "decompose names (NavigableString s # rest) = NavigableString s # decompose names rest"
| "decompose names (Tag n a cs # rest) =
     (if n \<in> set names then [] else [Tag n a (decompose names cs)]) @ decompose names rest"

text \<open>A record with its page: \<open>item["url"] = url\<close>.\<close>

record tagged = item +
  item_url :: string

definition with_url :: "string \<Rightarrow> item \<Rightarrow> tagged" where
  "with_url u it = item.extend it \<lparr>item_url = u\<rparr>"

text \<open>What a run does besides returning: the requests it issues, the pauses, and the error
  it shows.\<close>

datatype event = Get string | Sleep | ShowError exn

record run =
  all_data :: "tagged list"
  visited_urls :: "string set"
  events :: "event list"

text \<open>The \<open>try\<close> block of phase 1, from the request to the link filter.\<close>

definition phase1 ::
  "world \<Rightarrow> string \<Rightarrow> string list \<Rightarrow> exn + (item list \<times> string set)" where
  "phase1 w base_url keywords_list =
     (case requests_get w base_url of
        Inl e \<Rightarrow> Inl e
      | Inr resp \<Rightarrow>
          (case html_parser w (response_text resp) of
             None \<Rightarrow> Inl (Exception ''parser'')
           | Some parsed \<Rightarrow>
               (let soup = decompose [''script'', ''style'', ''nav'', ''footer'', ''noscript''] parsed;
                    home_data = get_structured_data soup keywords_list
                in case find_relevant_links w base_url soup keywords_list of
                     Inl e \<Rightarrow> Inl e
                   | Inr child_links \<Rightarrow> Inr (home_data, child_links))))"

text \<open>The \<open>try\<close> block of phase 2 for one link: the records it adds, none when the request
  or the parser raises.\<close>

definition sub_page :: "world \<Rightarrow> string list \<Rightarrow> string \<Rightarrow> tagged list" where
  "sub_page w keywords_list link =
     (case requests_get w link of
        Inl e \<Rightarrow> []
      | Inr resp \<Rightarrow>
          (case html_parser w (response_text resp) of
             None \<Rightarrow> []
           | Some parsed \<Rightarrow>
               (let sub_soup = decompose [''script'', ''style'', ''nav'', ''footer''] parsed
                in map (with_url link) (get_structured_data sub_soup keywords_list))))"

text \<open>The loop of phase 2 over the links, in the order of the iteration.\<close>

fun crawl :: "world \<Rightarrow> string list \<Rightarrow> string list \<Rightarrow> run \<Rightarrow> run" where
  "crawl w keywords_list [] st = st"
| "crawl w keywords_list (link # links) st =
     (if link \<in> visited_urls st then crawl w keywords_list links st
      else
        crawl w keywords_list links
          \<lparr>all_data = all_data st @ sub_page w keywords_list link,
           visited_urls = insert link (visited_urls st),
           events = events st @ [Sleep, Get link]\<rparr>)"

text \<open>The orchestrator: the list it returns and what it did.\<close>

definition scrape_logic :: "world \<Rightarrow> string \<Rightarrow> string list \<Rightarrow> tagged list \<times> event list" where
  "scrape_logic w base_url keywords_list =
     (case phase1 w base_url keywords_list of
        Inl e \<Rightarrow> ([], [Get base_url, ShowError e])
      | Inr (home_data, child_links) \<Rightarrow>
          (let st = \<lparr>all_data = map (with_url base_url) home_data,
                     visited_urls = {base_url},
                     events = [Get base_url]\<rparr>
           in if child_links \<noteq> {} then
                (let st' = crawl w keywords_list (set_order w child_links) st
                 in (all_data st', events st'))
              else (all_data st, events st)))"

section \<open>Notions used in the statements\<close>

text \<open>The records one keyword adds to the results of a page: the inner loop of
  \<open>get_structured_data\<close> started on no results.\<close>

definition kw_pass :: "node list \<Rightarrow> string \<Rightarrow> item list" where
  "kw_pass soup kw = fst (match_loop kw (find_strings kw (BeautifulSoup soup) soup) ([], {}))"

text \<open>The snippets the matches of a keyword produce on a page, before the post-filter.\<close>

definition snippets :: "node list \<Rightarrow> string \<Rightarrow> string set" where
  "snippets soup kw =
     (\<lambda>m. fst (classify kw (snd m))) ` set (find_strings kw (BeautifulSoup soup) soup)"

text \<open>The normalized text of the container of rule 4, before the truncation.\<close>

definition container_text :: "element \<Rightarrow> string" where
  "container_text e = clean_text (get_text '' '' False (contents (find_container e)))"

text \<open>The links phase 2 requests, in order: those of the iteration that are not yet
  visited, each once.\<close>

fun visit_order :: "string set \<Rightarrow> string list \<Rightarrow> string list" where
  "visit_order visited [] = []"
| "visit_order visited (link # links) =
     (if link \<in> visited then visit_order visited links
      else link # visit_order (insert link visited) links)"

text \<open>The addresses a run requested, in order.\<close>

fun requested :: "event list \<Rightarrow> string list" where
  "requested [] = []"
| "requested (Get u # evs) = u # requested evs"
| "requested (Sleep # evs) = requested evs"
| "requested (ShowError e # evs) = requested evs"

text \<open>Two outcomes of a request that differ at most in the status code of the response
  and in the exception raised: both raise, or both return the same body text.\<close>

fun same_body :: "exn + response \<Rightarrow> exn + response \<Rightarrow> bool" where
  "same_body (Inl e) (Inl e') = True"
| "same_body (Inr r) (Inr r') = (response_text r = response_text r')"
| "same_body (Inl e) (Inr r') = False"
| "same_body (Inr r) (Inl e') = False"

text \<open>The records of a child page, from the body of its response: the body is parsed,
  the tags of phase 2 are removed, and the classifier runs; none when the parser raises.\<close>

definition records_of_body :: "world \<Rightarrow> string list \<Rightarrow> string \<Rightarrow> string \<Rightarrow> tagged list" where
  "records_of_body w keywords_list link body =
     (case html_parser w body of
        None \<Rightarrow> []
      | Some parsed \<Rightarrow>
          map (with_url link)
            (get_structured_data
               (decompose [''script'', ''style'', ''nav'', ''footer''] parsed) keywords_list))"

section \<open>Example documents\<close>

text \<open>A page with a copyright line, a too short text and a paragraph on fees.\<close>

definition page_notice :: "node list" where
  "page_notice =
     [Tag ''div'' [] [NavigableString ''Copyright 2024 Fee Bank''],
      Tag ''span'' [] [NavigableString ''a''],
      Tag ''p'' [] [NavigableString ''The fee is 10'']]"

text \<open>A list item whose text is reached through two text nodes.\<close>

definition page_list :: "node list" where
  "page_list =
     [Tag ''ul'' []
        [Tag ''li'' []
           [Tag ''span'' [] [NavigableString ''Annual fee''],
            Tag ''span'' [] [NavigableString ''fee waiver card'']]]]"

text \<open>A text that is a direct child of a table row, inside a list item; and a table cell
  inside a list item.\<close>

definition page_bare_row :: "node list" where
  "page_bare_row =
     [Tag ''ul'' [] [Tag ''li'' [] [Tag ''table'' [] [Tag ''tr'' [] [NavigableString ''Millennia'']]]]]"

definition page_row_in_item :: "node list" where
  "page_row_in_item =
     [Tag ''ul'' []
        [Tag ''li'' []
           [Tag ''table'' []
              [Tag ''tr'' []
                 [Tag ''td'' [] [NavigableString ''Millennia'']]]]]]"

text \<open>A bold label followed by a line break and a text; and a term followed by its
  definition.\<close>

definition page_label_break :: "node list" where
  "page_label_break =
     [Tag ''p'' []
        [Tag ''b'' [] [NavigableString ''Fee''], Tag ''br'' [] [], NavigableString ''100 per year'']]"

definition page_term :: "node list" where
  "page_term =
     [Tag ''dl'' []
        [Tag ''dt'' [] [NavigableString ''Annual fee''],
         Tag ''dd'' [] [NavigableString ''  500 per year '']]]"


text \<open>Three long texts: one of 305 characters with the word \<open>Fee\<close> at index 61, below a
  \<open>span\<close> in a \<open>div\<close>; one that starts with 151 times the letter \<open>k\<close>; and one with two
  spaces between \<open>annual\<close> and \<open>fee\<close>, after 150 other characters.\<close>

definition page_long_text :: "node list" where
  "page_long_text =
     [Tag ''div'' []
        [Tag ''span'' []
           [NavigableString
              (replicate 60 (CHR ''a'') @ '' Fee '' @ replicate 240 (CHR ''b''))]]]"

definition page_long_keyword :: "node list" where
  "page_long_keyword =
     [Tag ''p'' [] [NavigableString (replicate 151 (CHR ''k'') @ replicate 150 (CHR ''x''))]]"

definition page_spaced_keyword :: "node list" where
  "page_spaced_keyword =
     [Tag ''p'' []
        [NavigableString
           (replicate 150 (CHR ''x'') @ '' annual  fee '' @ replicate 140 (CHR ''y''))]]"

text \<open>A paragraph that starts with 120 times the letter U+0130, before the word \<open>fee\<close>.\<close>

definition page_dotted :: "node list" where
  "page_dotted =
     [Tag ''p'' []
        [NavigableString (replicate 120 dotted_I @ '' fee '' @ replicate 200 (CHR ''z''))]]"

text \<open>
  A small site. The seed page links to a page on fees, to a page on offers and to another
  host. The page on fees answers with status 404 and a body; the request for the page on
  offers raises.
\<close>

definition seed_url :: string where "seed_url = ''http://bank.test/''"
definition fees_url :: string where "fees_url = ''http://bank.test/millennia-fees''"
definition offers_url :: string where "offers_url = ''http://bank.test/millennia-offers''"

definition seed_doc :: "node list" where
  "seed_doc =
     [Tag ''p'' [] [NavigableString ''Millennia card''],
      Tag ''a'' [(''href'', ''/millennia-fees'')] [NavigableString ''Fees''],
      Tag ''a'' [(''href'', ''/millennia-offers'')] [NavigableString ''Offers''],
      Tag ''a'' [(''href'', ''http://other.test/millennia'')] [NavigableString ''Millennia partner'']]"

definition fees_doc :: "node list" where
  "fees_doc =
     [Tag ''noscript'' [] [Tag ''p'' [] [NavigableString ''Millennia fee waived'']],
      Tag ''table'' []
        [Tag ''tr'' []
           [Tag ''td'' [] [NavigableString ''Millennia''],
            Tag ''td'' [] [NavigableString ''1.5%'']]]]"

definition demo_netloc :: "string \<Rightarrow> string option" where
  "demo_netloc u =
     Some (if prefix ''http://'' u then takeWhile (\<lambda>c. c \<noteq> CHR ''/'') (drop 7 u) else [])"

definition demo_urljoin :: "string \<Rightarrow> string \<Rightarrow> string option" where
  "demo_urljoin base href =
     Some (if prefix ''http://'' href then href
           else ''http://'' @ takeWhile (\<lambda>c. c \<noteq> CHR ''/'') (drop 7 base) @ href)"

definition demo_get :: "string \<Rightarrow> exn + response" where
  "demo_get u =
     (if u = seed_url then Inr \<lparr>status_code = 200, response_text = ''seed''\<rparr>
      else if u = fees_url then Inr \<lparr>status_code = 404, response_text = ''fees''\<rparr>
      else Inl (Exception ''timeout''))"

definition demo_parser :: "string \<Rightarrow> node list option" where
  "demo_parser t =
     (if t = ''seed'' then Some seed_doc else if t = ''fees'' then Some fees_doc else Some [])"

definition demo_world :: world where
  "demo_world =
     \<lparr>requests_get = demo_get, html_parser = demo_parser, urljoin = demo_urljoin,
      netloc = demo_netloc,
      set_order = (\<lambda>S. filter (\<lambda>u. u \<in> S) [offers_url, fees_url])\<rparr>"

text \<open>
  The same site with the page on offers answering with status 500 and a body, and a
  second run on it: every page answers with status 200 and the same body, and the set of
  links is iterated in the other order.
\<close>

definition offers_doc :: "node list" where
  "offers_doc = [Tag ''p'' [] [NavigableString ''Millennia offers'']]"

definition open_get :: "string \<Rightarrow> exn + response" where
  "open_get u =
     (if u = seed_url then Inr \<lparr>status_code = 200, response_text = ''seed''\<rparr>
      else if u = fees_url then Inr \<lparr>status_code = 404, response_text = ''fees''\<rparr>
      else if u = offers_url then Inr \<lparr>status_code = 500, response_text = ''offers''\<rparr>
      else Inl (Exception ''timeout''))"

definition open_parser :: "string \<Rightarrow> node list option" where
  "open_parser t = (if t = ''offers'' then Some offers_doc else demo_parser t)"

definition open_world :: world where
  "open_world = demo_world\<lparr>requests_get := open_get, html_parser := open_parser\<rparr>"

definition open_get_ok :: "string \<Rightarrow> exn + response" where
  "open_get_ok u =
     (if u = seed_url then Inr \<lparr>status_code = 200, response_text = ''seed''\<rparr>
      else if u = fees_url then Inr \<lparr>status_code = 200, response_text = ''fees''\<rparr>
      else if u = offers_url then Inr \<lparr>status_code = 200, response_text = ''offers''\<rparr>
      else Inl (Exception ''refused''))"

definition fees_first :: "string set \<Rightarrow> string list" where
  "fees_first S = filter (\<lambda>u. u \<in> S) [fees_url, offers_url]"

text \<open>A seed page with a link whose address cannot be joined to the address of the page,
  as an href that opens a bracket and does not close it, on which \<open>urljoin\<close> raises a
  \<open>ValueError\<close>.\<close>

definition broken_doc :: "node list" where
  "broken_doc =
     [Tag ''p'' [] [NavigableString ''Millennia card''],
      Tag ''a'' [(''href'', ''http://[bad'')] [NavigableString ''Contact'']]"

definition broken_urljoin :: "string \<Rightarrow> string \<Rightarrow> string option" where
  "broken_urljoin base href = (if href = ''http://[bad'' then None else demo_urljoin base href)"

definition broken_parser :: "string \<Rightarrow> node list option" where
  "broken_parser t = Some broken_doc"

definition broken_world :: world where
  "broken_world = demo_world\<lparr>html_parser := broken_parser, urljoin := broken_urljoin\<rparr>"

section \<open>The loops of the classifier\<close>

lemma match_loop_append:
  "fst (match_loop kw ms (results, seen)) = results @ fst (match_loop kw ms ([], seen))"
proof (induction ms arbitrary: results seen)
  case Nil
  show ?case by simp
next
  case (Cons m ms)
  show ?case
    using Cons.IH [of "results @ [x]" "insert (fst (classify kw (snd m))) seen" for x]
      Cons.IH [of "[x]" "insert (fst (classify kw (snd m))) seen" for x]
      Cons.IH [of results seen]
    by (simp add: split_beta Let_def)
qed

lemma keyword_loop_append:
  "keyword_loop soup kws results = results @ concat (map (kw_pass soup) kws)"
proof (induction kws arbitrary: results)
  case Nil
  show ?case by simp
next
  case (Cons kw kws)
  show ?case
    by (simp add: Cons.IH kw_pass_def match_loop_append [of kw _ results])
qed

lemma get_structured_data_concat:
  "get_structured_data soup keywords = concat (map (kw_pass soup) keywords)"
  by (simp add: get_structured_data_def keyword_loop_append)

text \<open>A record the loop adds carries the keyword, passed the post-filter, was not seen
  before and is the snippet and type of one of the matches.\<close>

lemma match_loop_fresh:
  "r \<in> set (fst (match_loop kw ms ([], seen))) \<Longrightarrow>
     item_keyword r = kw \<and> \<not> discarded (item_context r) \<and> item_context r \<notin> seen
     \<and> (\<exists>m \<in> set ms. classify kw (snd m) = (item_context r, item_type r))"
proof (induction ms arbitrary: seen)
  case Nil
  then show ?case by simp
next
  case (Cons m ms)
  obtain b t where bt: "classify kw (snd m) = (b, t)" by (cases "classify kw (snd m)")
  show ?case
  proof (cases "discarded b \<or> b \<in> seen")
    case True
    with Cons.prems bt have "r \<in> set (fst (match_loop kw ms ([], seen)))"
      by (auto simp: Let_def split: if_splits)
    from Cons.IH [OF this] show ?thesis by auto
  next
    case False
    with Cons.prems bt have
      "r \<in> set (fst (match_loop kw ms ([\<lparr>item_keyword = kw, item_context = b, item_type = t\<rparr>], insert b seen)))"
      by (simp add: Let_def)
    then have "r = \<lparr>item_keyword = kw, item_context = b, item_type = t\<rparr>
        \<or> r \<in> set (fst (match_loop kw ms ([], insert b seen)))"
      by (subst (asm) match_loop_append) auto
    then show ?thesis
    proof
      assume "r = \<lparr>item_keyword = kw, item_context = b, item_type = t\<rparr>"
      with False bt show ?thesis by auto
    next
      assume "r \<in> set (fst (match_loop kw ms ([], insert b seen)))"
      from Cons.IH [OF this] show ?thesis by auto
    qed
  qed
qed

text \<open>How many records of the loop carry a given snippet: one, if a match produces it, it
  passes the post-filter and it was not seen before; none otherwise.\<close>

lemma match_loop_count:
  "length (filter (\<lambda>r. item_context r = c) (fst (match_loop kw ms ([], seen)))) =
     (if c \<in> (\<lambda>m. fst (classify kw (snd m))) ` set ms \<and> \<not> discarded c \<and> c \<notin> seen
      then 1 else 0)"
proof (induction ms arbitrary: seen)
  case Nil
  show ?case by simp
next
  case (Cons m ms)
  obtain b t where bt: "classify kw (snd m) = (b, t)" by (cases "classify kw (snd m)")
  show ?case
  proof (cases "discarded b \<or> b \<in> seen")
    case True
    then show ?thesis using bt Cons.IH [of seen] by (auto simp: Let_def)
  next
    case False
    have "fst (match_loop kw (m # ms) ([], seen)) =
        \<lparr>item_keyword = kw, item_context = b, item_type = t\<rparr>
          # fst (match_loop kw ms ([], insert b seen))"
      using False bt
        match_loop_append [of kw ms "[\<lparr>item_keyword = kw, item_context = b, item_type = t\<rparr>]"
          "insert b seen"]
      by (simp add: Let_def)
    then show ?thesis using False bt Cons.IH [of "insert b seen"] by auto
  qed
qed

lemma kw_pass_keyword: "r \<in> set (kw_pass soup kw) \<Longrightarrow> item_keyword r = kw"
  unfolding kw_pass_def by (blast dest: match_loop_fresh)

lemma kw_pass_count:
  "length (filter (\<lambda>r. item_context r = c) (kw_pass soup kw)) =
     (if c \<in> snippets soup kw \<and> \<not> discarded c then 1 else 0)"
  unfolding kw_pass_def snippets_def by (simp add: match_loop_count)

lemma kw_pass_filter:
  "filter (\<lambda>r. item_keyword r = kw \<and> item_context r = c) (kw_pass soup kw') =
     (if kw' = kw then filter (\<lambda>r. item_context r = c) (kw_pass soup kw') else [])"
  by (auto simp: kw_pass_keyword filter_empty_conv intro: filter_cong)

section \<open>The post-filter\<close>

text \<open>
  C5. Every record the classifier returns, for any document and any list of keywords, has
  a context of at least 3 characters in which \<open>copyright\<close> does not occur in any letter
  case: a snippet that is shorter or mentions it is not among the results.
\<close>

theorem emitted_context_invariant:
  "r \<in> set (get_structured_data soup keywords) \<Longrightarrow>
     3 \<le> length (item_context r) \<and> \<not> sublist ''copyright'' (lower (item_context r))"
proof -
  assume "r \<in> set (get_structured_data soup keywords)"
  then obtain kw where "r \<in> set (kw_pass soup kw)"
    by (auto simp: get_structured_data_concat)
  then have "\<not> discarded (item_context r)"
    unfolding kw_pass_def by (blast dest: match_loop_fresh)
  then show ?thesis by (simp add: discarded_def not_less)
qed

text \<open>On the page with the copyright line, the keyword \<open>fee\<close> matches in the copyright line
  and in the paragraph, and \<open>a\<close> matches three texts; only the paragraph is returned.\<close>

theorem emitted_context_invariant_witness:
  "get_structured_data page_notice [''fee'', ''a''] =
     [\<lparr>item_keyword = ''fee'', item_context = ''The fee is 10'', item_type = TextBlock\<rparr>]
   \<and> 3 \<le> length ''The fee is 10''
   \<and> \<not> sublist ''copyright'' (lower ''The fee is 10'')"
proof -
  have run: "get_structured_data page_notice [''fee'', ''a''] =
     [\<lparr>item_keyword = ''fee'', item_context = ''The fee is 10'', item_type = TextBlock\<rparr>]"
    by code_simp
  then have "\<lparr>item_keyword = ''fee'', item_context = ''The fee is 10'', item_type = TextBlock\<rparr>
      \<in> set (get_structured_data page_notice [''fee'', ''a''])"
    by simp
  from emitted_context_invariant [OF this] run show ?thesis by simp
qed

section \<open>Deduplication\<close>

text \<open>
  C4, as the code has it. Within one page, the records that carry a keyword and a given
  snippet text number one for each time the keyword stands in the keyword list, if a match
  of that keyword produces the snippet and it passes the post-filter, and none otherwise.
  So for one entry of the keyword list two matches with equal snippets give one record,
  and the count for a keyword does not depend on the other keywords: a snippet already
  returned for one entry is returned again for the next, be it another keyword or the same
  keyword listed again.
\<close>

theorem dedup_per_keyword_per_page:
  "length (filter (\<lambda>r. item_keyword r = kw \<and> item_context r = c)
       (get_structured_data soup keywords)) =
     count_list keywords kw * (if c \<in> snippets soup kw \<and> \<not> discarded c then 1 else 0)"
proof -
  have "length (filter (\<lambda>r. item_keyword r = kw \<and> item_context r = c)
       (concat (map (kw_pass soup) kws))) =
     count_list kws kw * (if c \<in> snippets soup kw \<and> \<not> discarded c then 1 else 0)" for kws
  proof (induction kws)
    case Nil
    show ?case by simp
  next
    case (Cons k kws)
    have "length (filter (\<lambda>r. item_keyword r = kw \<and> item_context r = c) (kw_pass soup k)) =
        (if k = kw then (if c \<in> snippets soup kw \<and> \<not> discarded c then 1 else 0) else 0)"
      by (simp only: kw_pass_filter kw_pass_count list.size if_distrib [of length] cong: if_cong)
    then show ?case
      using Cons.IH by simp
  qed
  then show ?thesis by (simp add: get_structured_data_concat)
qed

text \<open>The claim as stated fails when a keyword stands twice in the list: the set of seen
  snippets starts empty for each entry of the list, and the one snippet of the list item is
  returned once for each entry.\<close>

theorem repeated_keyword_counterexample:
  "get_structured_data page_list [''fee'', ''fee''] =
       [\<lparr>item_keyword = ''fee'', item_context = ''Annual fee fee waiver card'', item_type = ListItem\<rparr>,
        \<lparr>item_keyword = ''fee'', item_context = ''Annual fee fee waiver card'', item_type = ListItem\<rparr>]"
  by code_simp

text \<open>In the list item, \<open>fee\<close> matches two text nodes with the same snippet and \<open>card\<close>
  matches one: one record for each entry of the list, all with the same context, two of
  them for \<open>fee\<close>, which is listed twice.\<close>

theorem dedup_per_keyword_per_page_witness:
  "length (find_strings ''fee'' (BeautifulSoup page_list) page_list) = 2
   \<and> get_structured_data page_list [''fee'', ''card'', ''fee''] =
       [\<lparr>item_keyword = ''fee'', item_context = ''Annual fee fee waiver card'', item_type = ListItem\<rparr>,
        \<lparr>item_keyword = ''card'', item_context = ''Annual fee fee waiver card'', item_type = ListItem\<rparr>,
        \<lparr>item_keyword = ''fee'', item_context = ''Annual fee fee waiver card'', item_type = ListItem\<rparr>]
   \<and> count_list [''fee'', ''card'', ''fee''] ''fee''
       * (if ''Annual fee fee waiver card'' \<in> snippets page_list ''fee''
            \<and> \<not> discarded ''Annual fee fee waiver card'' then 1 else 0) = 2
   \<and> count_list [''fee'', ''card'', ''fee''] ''card''
       * (if ''Annual fee fee waiver card'' \<in> snippets page_list ''card''
            \<and> \<not> discarded ''Annual fee fee waiver card'' then 1 else 0) = 1"
proof -
  have run: "get_structured_data page_list [''fee'', ''card'', ''fee''] =
       [\<lparr>item_keyword = ''fee'', item_context = ''Annual fee fee waiver card'', item_type = ListItem\<rparr>,
        \<lparr>item_keyword = ''card'', item_context = ''Annual fee fee waiver card'', item_type = ListItem\<rparr>,
        \<lparr>item_keyword = ''fee'', item_context = ''Annual fee fee waiver card'', item_type = ListItem\<rparr>]"
    by code_simp
  have two: "length (find_strings ''fee'' (BeautifulSoup page_list) page_list) = 2"
    by code_simp
  have "count_list [''fee'', ''card'', ''fee''] ''fee''
       * (if ''Annual fee fee waiver card'' \<in> snippets page_list ''fee''
            \<and> \<not> discarded ''Annual fee fee waiver card'' then 1 else 0)
     = length (filter (\<lambda>r. item_keyword r = ''fee'' \<and> item_context r = ''Annual fee fee waiver card'')
         (get_structured_data page_list [''fee'', ''card'', ''fee'']))"
    by (rule dedup_per_keyword_per_page [symmetric])
  also have "\<dots> = 2"
    unfolding run by simp
  finally have fee: "count_list [''fee'', ''card'', ''fee''] ''fee''
       * (if ''Annual fee fee waiver card'' \<in> snippets page_list ''fee''
            \<and> \<not> discarded ''Annual fee fee waiver card'' then 1 else 0) = 2" .
  have "count_list [''fee'', ''card'', ''fee''] ''card''
       * (if ''Annual fee fee waiver card'' \<in> snippets page_list ''card''
            \<and> \<not> discarded ''Annual fee fee waiver card'' then 1 else 0)
     = length (filter (\<lambda>r. item_keyword r = ''card'' \<and> item_context r = ''Annual fee fee waiver card'')
         (get_structured_data page_list [''fee'', ''card'', ''fee'']))"
    by (rule dedup_per_keyword_per_page [symmetric])
  also have "\<dots> = 1"
    unfolding run by simp
  finally have card: "count_list [''fee'', ''card'', ''fee''] ''card''
       * (if ''Annual fee fee waiver card'' \<in> snippets page_list ''card''
            \<and> \<not> discarded ''Annual fee fee waiver card'' then 1 else 0) = 1" .
  from two run fee card show ?thesis
    by (intro conjI)
qed

section \<open>The link relevance filter is same-domain\<close>

text \<open>A link the loop returns was there before or is the joined address of one of the
  anchors, lies on the domain and matched a keyword.\<close>

lemma link_loop_sound:
  "link_loop w base_url domain keywords links acc = Inr S \<Longrightarrow> u \<in> S \<Longrightarrow>
     u \<in> acc \<or>
     (\<exists>link \<in> set links. \<exists>href.
         map_of (tag_attrs link) ''href'' = Some href
       \<and> urljoin w base_url href = Some u
       \<and> netloc w u = Some domain
       \<and> keyword_hit keywords (lower (get_text '' '' True [link])) href)"
proof (induction links arbitrary: acc)
  case Nil
  then show ?case by simp
next
  case (Cons link links)
  from Cons.prems(1) obtain href full_url d where
    h: "map_of (tag_attrs link) ''href'' = Some href"
    and j: "urljoin w base_url href = Some full_url"
    and n: "netloc w full_url = Some d"
    by (auto simp: Let_def split: option.splits)
  let ?hit = "keyword_hit keywords (lower (get_text '' '' True [link])) href"
  show ?case
  proof (cases "d = domain \<and> ?hit")
    case True
    with Cons.prems(1) h j n have
      "link_loop w base_url domain keywords links (insert full_url acc) = Inr S"
      by (simp add: Let_def)
    from Cons.IH [OF this Cons.prems(2)] True h j n show ?thesis by auto
  next
    case False
    with Cons.prems(1) h j n have
      "link_loop w base_url domain keywords links acc = Inr S"
      by (auto simp: Let_def split: if_splits)
    from Cons.IH [OF this Cons.prems(2)] show ?thesis by auto
  qed
qed

text \<open>
  C6. Every address the link relevance filter returns is the href of an anchor of the page
  resolved against the seed address, and its network location equals that of the seed
  address: a link that resolves to another network location is not returned, whatever
  keywords its text or href contains.
\<close>

theorem relevant_links_same_netloc:
  "find_relevant_links w base_url soup keywords = Inr child_links \<Longrightarrow>
     \<forall>u \<in> child_links.
        netloc w u = netloc w base_url
      \<and> (\<exists>link \<in> set (find_all [''a''] (\<lambda>a. map_of a ''href'' \<noteq> None) soup). \<exists>href.
            map_of (tag_attrs link) ''href'' = Some href \<and> urljoin w base_url href = Some u)"
proof
  fix u
  assume run: "find_relevant_links w base_url soup keywords = Inr child_links"
    and u: "u \<in> child_links"
  from run obtain domain where d: "netloc w base_url = Some domain"
    and loop: "link_loop w base_url domain keywords
        (find_all [''a''] (\<lambda>a. map_of a ''href'' \<noteq> None) soup) {} = Inr child_links"
    by (auto simp: find_relevant_links_def split: option.splits)
  from link_loop_sound [OF loop u] d
  show "netloc w u = netloc w base_url
      \<and> (\<exists>link \<in> set (find_all [''a''] (\<lambda>a. map_of a ''href'' \<noteq> None) soup). \<exists>href.
            map_of (tag_attrs link) ''href'' = Some href \<and> urljoin w base_url href = Some u)"
    by auto
qed

text \<open>On the seed page of the small site the two links of the site are returned; the anchor
  to the other host, whose text contains the keyword, is not.\<close>

theorem relevant_links_same_netloc_witness:
  "find_relevant_links demo_world seed_url seed_doc [''Millennia''] = Inr {offers_url, fees_url}
   \<and> netloc demo_world fees_url = netloc demo_world seed_url
   \<and> netloc demo_world offers_url = netloc demo_world seed_url
   \<and> netloc demo_world ''http://other.test/millennia'' \<noteq> netloc demo_world seed_url
   \<and> ''http://other.test/millennia'' \<notin> {offers_url, fees_url}"
proof -
  have run: "find_relevant_links demo_world seed_url seed_doc [''Millennia'']
      = Inr {offers_url, fees_url}"
    by code_simp
  have other: "netloc demo_world ''http://other.test/millennia'' \<noteq> netloc demo_world seed_url"
    by code_simp
  have out: "''http://other.test/millennia'' \<notin> {offers_url, fees_url}"
    by code_simp
  from relevant_links_same_netloc [OF run] have
    "netloc demo_world fees_url = netloc demo_world seed_url"
    "netloc demo_world offers_url = netloc demo_world seed_url"
    by blast+
  with run other out show ?thesis by simp
qed

section \<open>The runs of the orchestrator\<close>

lemma crawl_all_data:
  "all_data (crawl w kws links st) =
     all_data st @ concat (map (sub_page w kws) (visit_order (visited_urls st) links))"
  by (induction links arbitrary: st) simp_all

lemma crawl_events:
  "events (crawl w kws links st) =
     events st @ concat (map (\<lambda>l. [Sleep, Get l]) (visit_order (visited_urls st) links))"
  by (induction links arbitrary: st) simp_all

lemma set_visit_order: "set (visit_order visited links) = set links - visited"
  by (induction links arbitrary: visited) auto

lemma sub_page_url: "r \<in> set (sub_page w kws link) \<Longrightarrow> item_url r = link"
  by (auto simp: sub_page_def with_url_def item.defs Let_def split: sum.splits option.splits)

lemma with_url_url: "item_url (with_url u it) = u"
  by (simp add: with_url_def item.defs)


lemma scrape_logic_abort:
  "phase1 w base_url kws = Inl e \<Longrightarrow>
     scrape_logic w base_url kws = ([], [Get base_url, ShowError e])"
  by (simp add: scrape_logic_def)

lemma scrape_logic_run:
  "phase1 w base_url kws = Inr (home_data, child_links) \<Longrightarrow>
     scrape_logic w base_url kws =
       (map (with_url base_url) home_data
          @ (if child_links \<noteq> {}
             then concat (map (sub_page w kws) (visit_order {base_url} (set_order w child_links)))
             else []),
        Get base_url
          # (if child_links \<noteq> {}
             then concat (map (\<lambda>l. [Sleep, Get l]) (visit_order {base_url} (set_order w child_links)))
             else []))"
  by (simp add: scrape_logic_def Let_def crawl_all_data crawl_events)

lemma scrape_logic_records:
  assumes "phase1 w base_url kws = Inr (home_data, child_links)"
    and "set (set_order w child_links) = child_links"
  shows "set (fst (scrape_logic w base_url kws)) =
     with_url base_url ` set home_data
       \<union> (\<Union>l \<in> child_links - {base_url}. set (sub_page w kws l))"
proof (cases "child_links = {}")
  case True
  with assms(1) show ?thesis by (simp add: scrape_logic_run)
next
  case False
  with assms show ?thesis by (simp add: scrape_logic_run set_visit_order)
qed

text \<open>The run on the small site, evaluated.\<close>

lemma demo_run_example:
  "scrape_logic demo_world seed_url [''Millennia''] =
     ([\<lparr>item_keyword = ''Millennia'', item_context = ''Millennia card'',
          item_type = TextBlock, item_url = seed_url\<rparr>,
       \<lparr>item_keyword = ''Millennia'',
          item_context = ''Millennia card Fees Offers Millennia partner'',
          item_type = TextBlock, item_url = seed_url\<rparr>,
       \<lparr>item_keyword = ''Millennia'', item_context = ''Millennia fee waived'',
          item_type = TextBlock, item_url = fees_url\<rparr>,
       \<lparr>item_keyword = ''Millennia'', item_context = ''Millennia | 1.5%'',
          item_type = TableRow, item_url = fees_url\<rparr>],
      [Get seed_url, Sleep, Get offers_url, Sleep, Get fees_url])"
  by code_simp

lemma demo_phase1_example:
  "phase1 demo_world seed_url [''Millennia''] =
     Inr ([\<lparr>item_keyword = ''Millennia'', item_context = ''Millennia card'',
             item_type = TextBlock\<rparr>,
           \<lparr>item_keyword = ''Millennia'',
             item_context = ''Millennia card Fees Offers Millennia partner'',
             item_type = TextBlock\<rparr>],
          {offers_url, fees_url})"
  by code_simp

lemma demo_get_example:
  "requests_get demo_world offers_url = Inl (Exception ''timeout'')"
  "requests_get demo_world fees_url = Inr \<lparr>status_code = 404, response_text = ''fees''\<rparr>"
  "html_parser demo_world ''fees'' = Some fees_doc"
  "set (set_order demo_world {offers_url, fees_url}) = {offers_url, fees_url}"
  "offers_url \<noteq> seed_url" "fees_url \<noteq> seed_url"
  by code_simp+

section \<open>Fetch failures\<close>

text \<open>
  C3. If the request for the seed address raises, the run is given up: the orchestrator
  returns no records, after showing the error. If phase 1 succeeds and the iteration
  over the link set enumerates it, then the records of the seed page are returned, and for
  every candidate link other than the seed address: when its request raises, no returned
  record carries that link (only its records are missing), and when its request and the
  parser succeed, all records of its page are returned.
\<close>

theorem fatal_and_recoverable_fetch_errors:
  "(requests_get w base_url = Inl e \<longrightarrow>
      scrape_logic w base_url kws = ([], [Get base_url, ShowError e]))
   \<and> (phase1 w base_url kws = Inr (home_data, child_links)
        \<and> set (set_order w child_links) = child_links \<longrightarrow>
      set (map (with_url base_url) home_data) \<subseteq> set (fst (scrape_logic w base_url kws))
      \<and> (\<forall>link \<in> child_links. link \<noteq> base_url \<longrightarrow>
           (\<forall>e'. requests_get w link = Inl e' \<longrightarrow>
              (\<forall>r \<in> set (fst (scrape_logic w base_url kws)). item_url r \<noteq> link))
         \<and> (\<forall>resp parsed.
               requests_get w link = Inr resp \<and> html_parser w (response_text resp) = Some parsed \<longrightarrow>
               set (map (with_url link)
                      (get_structured_data
                         (decompose [''script'', ''style'', ''nav'', ''footer''] parsed) kws))
                 \<subseteq> set (fst (scrape_logic w base_url kws)))))"
proof (intro conjI impI)
  assume "requests_get w base_url = Inl e"
  then have "phase1 w base_url kws = Inl e" by (simp add: phase1_def)
  then show "scrape_logic w base_url kws = ([], [Get base_url, ShowError e])"
    by (rule scrape_logic_abort)
next
  assume a: "phase1 w base_url kws = Inr (home_data, child_links)
      \<and> set (set_order w child_links) = child_links"
  then show "set (map (with_url base_url) home_data) \<subseteq> set (fst (scrape_logic w base_url kws))"
    by (simp add: scrape_logic_records)
next
  assume a: "phase1 w base_url kws = Inr (home_data, child_links)
      \<and> set (set_order w child_links) = child_links"
  define out where "out = set (fst (scrape_logic w base_url kws))"
  have out: "out = with_url base_url ` set home_data
      \<union> (\<Union>l \<in> child_links - {base_url}. set (sub_page w kws l))"
    unfolding out_def using a by (simp add: scrape_logic_records)
  have "\<forall>link \<in> child_links. link \<noteq> base_url \<longrightarrow>
           (\<forall>e'. requests_get w link = Inl e' \<longrightarrow> (\<forall>r \<in> out. item_url r \<noteq> link))
         \<and> (\<forall>resp parsed.
               requests_get w link = Inr resp \<and> html_parser w (response_text resp) = Some parsed \<longrightarrow>
               set (map (with_url link)
                      (get_structured_data
                         (decompose [''script'', ''style'', ''nav'', ''footer''] parsed) kws))
                 \<subseteq> out)"
  proof (intro ballI impI conjI allI)
    fix link e' r
    assume l: "link \<in> child_links" "link \<noteq> base_url"
      and f: "requests_get w link = Inl e'" and r: "r \<in> out"
    from f have empty: "sub_page w kws link = []" by (simp add: sub_page_def)
    from r have "r \<in> with_url base_url ` set home_data
        \<or> (\<exists>l' \<in> child_links. r \<in> set (sub_page w kws l'))"
      unfolding out by blast
    then show "item_url r \<noteq> link"
    proof
      assume "r \<in> with_url base_url ` set home_data"
      then have "item_url r = base_url" by (auto simp: with_url_url)
      with l show ?thesis by simp
    next
      assume "\<exists>l' \<in> child_links. r \<in> set (sub_page w kws l')"
      then obtain l' where l': "r \<in> set (sub_page w kws l')" by blast
      with empty have "l' \<noteq> link" by auto
      moreover from l' have "item_url r = l'" by (rule sub_page_url)
      ultimately show ?thesis by simp
    qed
  next
    fix link resp parsed
    assume l: "link \<in> child_links" "link \<noteq> base_url"
      and f: "requests_get w link = Inr resp \<and> html_parser w (response_text resp) = Some parsed"
    then have "sub_page w kws link = map (with_url link)
        (get_structured_data (decompose [''script'', ''style'', ''nav'', ''footer''] parsed) kws)"
      by (simp add: sub_page_def)
    then have "set (map (with_url link)
        (get_structured_data (decompose [''script'', ''style'', ''nav'', ''footer''] parsed) kws))
         = set (sub_page w kws link)" by simp
    also from l have "\<dots> \<subseteq> out" unfolding out by blast
    finally show "set (map (with_url link)
        (get_structured_data (decompose [''script'', ''style'', ''nav'', ''footer''] parsed) kws))
          \<subseteq> out" .
  qed
  then show "\<forall>link \<in> child_links. link \<noteq> base_url \<longrightarrow>
           (\<forall>e'. requests_get w link = Inl e' \<longrightarrow>
              (\<forall>r \<in> set (fst (scrape_logic w base_url kws)). item_url r \<noteq> link))
         \<and> (\<forall>resp parsed.
               requests_get w link = Inr resp \<and> html_parser w (response_text resp) = Some parsed \<longrightarrow>
               set (map (with_url link)
                      (get_structured_data
                         (decompose [''script'', ''style'', ''nav'', ''footer''] parsed) kws))
                 \<subseteq> set (fst (scrape_logic w base_url kws)))"
    unfolding out_def .
qed

text \<open>On the small site the request for the page on offers raises: a run seeded there is
  given up, and a run seeded at the seed page returns the records of the seed page and of
  the page on fees, none of the page on offers.\<close>

theorem fatal_and_recoverable_fetch_errors_witness:
  "requests_get demo_world offers_url = Inl (Exception ''timeout'')
   \<and> scrape_logic demo_world offers_url [''Millennia'']
       = ([], [Get offers_url, ShowError (Exception ''timeout'')])
   \<and> set (set_order demo_world {offers_url, fees_url}) = {offers_url, fees_url}
   \<and> offers_url \<notin> item_url ` set (fst (scrape_logic demo_world seed_url [''Millennia'']))
   \<and> set (map (with_url fees_url)
            (get_structured_data
               (decompose [''script'', ''style'', ''nav'', ''footer''] fees_doc) [''Millennia'']))
        \<subseteq> set (fst (scrape_logic demo_world seed_url [''Millennia'']))
   \<and> map item_url (fst (scrape_logic demo_world seed_url [''Millennia'']))
        = [seed_url, seed_url, fees_url, fees_url]"
proof -
  note fail = demo_get_example(1) and ok = demo_get_example(2) and parsed = demo_get_example(3)
    and order = demo_get_example(4) and ne1 = demo_get_example(5) and ne2 = demo_get_example(6)
  have urls: "map item_url (fst (scrape_logic demo_world seed_url [''Millennia'']))
        = [seed_url, seed_url, fees_url, fees_url]"
    by (simp add: demo_run_example)
  have abort: "scrape_logic demo_world offers_url [''Millennia'']
       = ([], [Get offers_url, ShowError (Exception ''timeout'')])"
    by (rule fatal_and_recoverable_fetch_errors [THEN conjunct1, THEN mp, OF fail])
  note phase2 = fatal_and_recoverable_fetch_errors
    [THEN conjunct2, THEN mp, OF conjI, OF demo_phase1_example order, THEN conjunct2]
  have m1: "offers_url \<in> {offers_url, fees_url}" and m2: "fees_url \<in> {offers_url, fees_url}"
    by simp_all
  note for_offers = phase2 [THEN bspec, OF m1, THEN mp, OF ne1, THEN conjunct1, THEN spec, THEN mp, OF fail]
  note for_fees = phase2 [THEN bspec, OF m2, THEN mp, OF ne2, THEN conjunct2, THEN spec, THEN spec,
      THEN mp, OF conjI, OF ok]
  have skip: "offers_url \<notin> item_url ` set (fst (scrape_logic demo_world seed_url [''Millennia'']))"
  proof (rule notI, erule imageE)
    fix r
    assume "offers_url = item_url r"
      and "r \<in> set (fst (scrape_logic demo_world seed_url [''Millennia'']))"
    with for_offers [THEN bspec, of r] show False by simp
  qed
  have keep: "set (map (with_url fees_url)
            (get_structured_data
               (decompose [''script'', ''style'', ''nav'', ''footer''] fees_doc) [''Millennia'']))
        \<subseteq> set (fst (scrape_logic demo_world seed_url [''Millennia'']))"
    by (rule for_fees) (simp add: parsed)
  show ?thesis
    by (intro conjI fail abort order skip keep urls)
qed

section \<open>An empty keyword list\<close>

lemma link_loop_no_keywords:
  "link_loop w base_url domain [] links acc = Inr S \<Longrightarrow> S = acc"
  by (induction links arbitrary: acc) (auto simp: Let_def split: option.splits if_splits)

lemma phase1_no_keywords:
  "phase1 w base_url [] = Inr (home_data, child_links) \<Longrightarrow> home_data = [] \<and> child_links = {}"
  by (auto simp: phase1_def Let_def get_structured_data_def find_relevant_links_def
      split: sum.splits option.splits dest: link_loop_no_keywords)

text \<open>
  C9, as the code has it. With an empty keyword list the orchestrator returns no records
  and issues exactly one request, the one for the seed address in phase 1; phase 2
  requests nothing.
\<close>

theorem no_keywords_one_request:
  "fst (scrape_logic w base_url []) = []
   \<and> requested (snd (scrape_logic w base_url [])) = [base_url]"
proof (cases "phase1 w base_url []")
  case (Inl e)
  then show ?thesis by (simp add: scrape_logic_abort)
next
  case (Inr x)
  obtain home_data child_links where "x = (home_data, child_links)" by (cases x)
  with Inr phase1_no_keywords [of w base_url home_data child_links] show ?thesis
    by (simp add: scrape_logic_run)
qed

text \<open>The claim as stated fails: with no keywords the seed address is still
  requested.\<close>

theorem no_fetch_without_keywords_counterexample:
  "\<not> (fst (scrape_logic demo_world seed_url []) = []
      \<and> requested (snd (scrape_logic demo_world seed_url [])) = [])"
  by code_simp

text \<open>The run on the small site with no keywords.\<close>

theorem no_keywords_one_request_witness:
  "scrape_logic demo_world seed_url [] = ([], [Get seed_url])
   \<and> fst (scrape_logic demo_world seed_url []) = []
   \<and> requested (snd (scrape_logic demo_world seed_url [])) = [seed_url]"
proof -
  have "scrape_logic demo_world seed_url [] = ([], [Get seed_url])"
    by code_simp
  with no_keywords_one_request [of demo_world seed_url] show ?thesis by simp
qed

section \<open>The status code\<close>

lemma link_loop_world:
  "urljoin w' = urljoin w \<Longrightarrow> netloc w' = netloc w \<Longrightarrow>
     link_loop w' base_url domain kws links acc = link_loop w base_url domain kws links acc"
  by (induction links arbitrary: acc) (simp_all add: Let_def split: option.splits)

lemma find_relevant_links_world:
  "urljoin w' = urljoin w \<Longrightarrow> netloc w' = netloc w \<Longrightarrow>
     find_relevant_links w' base_url soup kws = find_relevant_links w base_url soup kws"
  by (simp add: find_relevant_links_def link_loop_world [of w' w] split: option.splits)

lemma sub_page_body:
  "sub_page w kws link =
     (case requests_get w link of
        Inl e \<Rightarrow> []
      | Inr r \<Rightarrow> records_of_body w kws link (response_text r))"
  by (simp add: sub_page_def records_of_body_def Let_def split: sum.splits option.splits)

lemma records_of_body_world:
  "html_parser w' = html_parser w \<Longrightarrow> records_of_body w' kws link body = records_of_body w kws link body"
  by (simp add: records_of_body_def)

lemma sub_page_same_body:
  assumes "html_parser w' = html_parser w"
    and "same_body (requests_get w link) (requests_get w' link)"
  shows "sub_page w' kws link = sub_page w kws link"
  using assms(2)
  by (cases "requests_get w link"; cases "requests_get w' link")
    (simp_all add: sub_page_body records_of_body_world [OF assms(1)])

lemma phase1_world:
  assumes "html_parser w' = html_parser w" "urljoin w' = urljoin w" "netloc w' = netloc w"
    and "requests_get w' base_url = Inr r'" "requests_get w base_url = Inr r"
    and "response_text r' = response_text r"
  shows "phase1 w' base_url kws = phase1 w base_url kws"
  using assms
  by (simp add: phase1_def find_relevant_links_world [of w' w] Let_def split: option.splits)

lemma phase1_request_raises:
  "requests_get w base_url = Inl e \<Longrightarrow> phase1 w base_url kws = Inl e"
  by (simp add: phase1_def)

text \<open>
  C10, as the code has it. Take two runs that differ in the responses, such that for
  every address both requests raise or both return the same body text, with any status
  codes, and possibly in the order in which the set of links is iterated. If the order is
  the same, the two runs return the same records and request the same addresses. In any
  case the second run is determined by the bodies. It ends with no records and an error
  shown exactly when something in phase 1 raises, be it the request for the seed, the
  parser, or the link filter on an address that cannot be joined or parsed. Otherwise it
  shows no error, requests the seed and then each link in the order of the iteration, and
  returns the records classified from the body of the seed, then for every link the
  records classified from the body of its response, and none for a link whose request or
  parser raises.
\<close>

theorem status_code_not_inspected:
  assumes "\<forall>u. same_body (requests_get w u) (g u)"
  shows "(so = set_order w \<longrightarrow>
        fst (scrape_logic (w\<lparr>requests_get := g, set_order := so\<rparr>) base_url kws)
          = fst (scrape_logic w base_url kws)
        \<and> requested (snd (scrape_logic (w\<lparr>requests_get := g, set_order := so\<rparr>) base_url kws))
          = requested (snd (scrape_logic w base_url kws)))
    \<and> (case requests_get w base_url of
          Inl e \<Rightarrow>
            (\<exists>e'. g base_url = Inl e'
               \<and> scrape_logic (w\<lparr>requests_get := g, set_order := so\<rparr>) base_url kws
                   = ([], [Get base_url, ShowError e']))
        | Inr r \<Rightarrow>
            (case html_parser w (response_text r) of
               None \<Rightarrow>
                 scrape_logic (w\<lparr>requests_get := g, set_order := so\<rparr>) base_url kws
                   = ([], [Get base_url, ShowError (Exception ''parser'')])
             | Some parsed \<Rightarrow>
                 (case find_relevant_links w base_url
                         (decompose [''script'', ''style'', ''nav'', ''footer'', ''noscript''] parsed) kws of
                    Inl e \<Rightarrow>
                      scrape_logic (w\<lparr>requests_get := g, set_order := so\<rparr>) base_url kws
                        = ([], [Get base_url, ShowError e])
                  | Inr links \<Rightarrow>
                      scrape_logic (w\<lparr>requests_get := g, set_order := so\<rparr>) base_url kws
                        = (map (with_url base_url)
                             (get_structured_data
                                (decompose [''script'', ''style'', ''nav'', ''footer'', ''noscript''] parsed)
                                kws)
                           @ concat
                               (map (\<lambda>link. case g link of
                                              Inl e \<Rightarrow> []
                                            | Inr r' \<Rightarrow> records_of_body w kws link (response_text r'))
                                  (visit_order {base_url} (if links = {} then [] else so links))),
                           Get base_url
                             # concat
                                 (map (\<lambda>link. [Sleep, Get link])
                                    (visit_order {base_url} (if links = {} then [] else so links)))))))"
proof -
  let ?w' = "w\<lparr>requests_get := g, set_order := so\<rparr>"
  let ?same = "so = set_order w \<longrightarrow>
        fst (scrape_logic ?w' base_url kws) = fst (scrape_logic w base_url kws)
        \<and> requested (snd (scrape_logic ?w' base_url kws))
          = requested (snd (scrape_logic w base_url kws))"
  let ?page = "\<lambda>link. case g link of
                        Inl e \<Rightarrow> []
                      | Inr r' \<Rightarrow> records_of_body w kws link (response_text r')"
  have sel: "html_parser ?w' = html_parser w" "urljoin ?w' = urljoin w" "netloc ?w' = netloc w"
    "requests_get ?w' = g" "set_order ?w' = so"
    by simp_all
  have sub': "sub_page ?w' kws = ?page"
    by (rule ext) (simp add: sub_page_body records_of_body_world [OF sel(1)] split: sum.splits)
  have sub_eq: "sub_page ?w' kws = sub_page w kws"
  proof (rule ext)
    fix link
    from assms have "same_body (requests_get w link) (requests_get ?w' link)"
      by simp
    with sel(1) show "sub_page ?w' kws link = sub_page w kws link"
      by (rule sub_page_same_body)
  qed
  have aborted: "?same \<and> scrape_logic ?w' base_url kws = ([], [Get base_url, ShowError e'])"
    if a: "phase1 w base_url kws = Inl e" and b: "phase1 ?w' base_url kws = Inl e'" for e e'
    unfolding scrape_logic_abort [OF a] scrape_logic_abort [OF b] by simp
  show ?thesis
  proof (cases "requests_get w base_url")
    case (Inl e)
    with assms [THEN spec, of base_url] obtain e' where g: "g base_url = Inl e'"
      by (cases "g base_url") auto
    have a: "phase1 w base_url kws = Inl e"
      using Inl by (rule phase1_request_raises)
    have b: "phase1 ?w' base_url kws = Inl e'"
      by (rule phase1_request_raises) (simp add: g)
    from aborted [OF a b] have "?same"
      and out: "scrape_logic ?w' base_url kws = ([], [Get base_url, ShowError e'])"
      by (rule conjunct1, rule conjunct2)
    moreover have "\<exists>e'. g base_url = Inl e'
        \<and> scrape_logic ?w' base_url kws = ([], [Get base_url, ShowError e'])"
      using g out by (intro exI conjI)
    ultimately show ?thesis
      unfolding Inl sum.case by (intro conjI)
  next
    case (Inr r)
    with assms [THEN spec, of base_url] obtain r' where
      g: "g base_url = Inr r'" and same_text: "response_text r' = response_text r"
      by (cases "g base_url") auto
    have g': "requests_get ?w' base_url = Inr r'"
      by (simp add: g)
    have p: "phase1 ?w' base_url kws = phase1 w base_url kws"
      using sel(1-3) g' Inr same_text by (rule phase1_world)
    show ?thesis
    proof (cases "html_parser w (response_text r)")
      case None
      with Inr have a: "phase1 w base_url kws = Inl (Exception ''parser'')"
        by (simp add: phase1_def)
      from aborted [OF a p [unfolded a]] show ?thesis
        unfolding Inr None sum.case option.case .
    next
      case (Some parsed)
      let ?soup = "decompose [''script'', ''style'', ''nav'', ''footer'', ''noscript''] parsed"
      show ?thesis
      proof (cases "find_relevant_links w base_url ?soup kws")
        case bad: (Inl e)
        with Inr Some have a: "phase1 w base_url kws = Inl e"
          by (simp add: phase1_def)
        from aborted [OF a p [unfolded a]] show ?thesis
          unfolding Inr Some bad sum.case option.case .
      next
        case good: (Inr links)
        with Inr Some have run: "phase1 w base_url kws = Inr (get_structured_data ?soup kws, links)"
          by (simp add: phase1_def)
        with p have run': "phase1 ?w' base_url kws = Inr (get_structured_data ?soup kws, links)"
          by simp
        note out' = scrape_logic_run [OF run', unfolded sel(5)]
        note out = scrape_logic_run [OF run]
        have same_order: "?same"
        proof (rule impI)
          assume "so = set_order w"
          then show "fst (scrape_logic ?w' base_url kws) = fst (scrape_logic w base_url kws)
            \<and> requested (snd (scrape_logic ?w' base_url kws))
              = requested (snd (scrape_logic w base_url kws))"
            unfolding out out' sub_eq by simp
        qed
        have closed: "scrape_logic ?w' base_url kws
            = (map (with_url base_url) (get_structured_data ?soup kws)
                @ concat (map ?page (visit_order {base_url} (if links = {} then [] else so links))),
               Get base_url
                 # concat (map (\<lambda>link. [Sleep, Get link])
                     (visit_order {base_url} (if links = {} then [] else so links))))"
          unfolding out' sub' by simp
        from same_order closed show ?thesis
          unfolding Inr Some good sum.case option.case by (rule conjI)
      qed
    qed
  qed
qed

text \<open>The claim as stated fails in two ways. On the seed page with the link that cannot
  be joined the request returns with status 200 and the body is parsed, no transport or
  parse exception is raised, and the run ends as for a request that failed: an error is
  shown and nothing is returned, though the page has a record. On the site with two
  pages that answer with an error status, the run with all statuses 200 and the other
  order of iteration returns the records of the two pages in the other order.\<close>

theorem status_and_failures_counterexample:
  "requests_get broken_world seed_url = Inr \<lparr>status_code = 200, response_text = ''seed''\<rparr>
   \<and> html_parser broken_world ''seed'' = Some broken_doc
   \<and> get_structured_data
        (decompose [''script'', ''style'', ''nav'', ''footer'', ''noscript''] broken_doc)
        [''Millennia'']
      = [\<lparr>item_keyword = ''Millennia'', item_context = ''Millennia card'', item_type = TextBlock\<rparr>]
   \<and> scrape_logic broken_world seed_url [''Millennia'']
      = ([], [Get seed_url, ShowError (Exception ''ValueError'')])
   \<and> map item_url (fst (scrape_logic open_world seed_url [''Millennia'']))
      = [seed_url, seed_url, offers_url, fees_url, fees_url]
   \<and> map item_url
        (fst (scrape_logic (open_world\<lparr>requests_get := open_get_ok, set_order := fees_first\<rparr>)
           seed_url [''Millennia'']))
      = [seed_url, seed_url, fees_url, fees_url, offers_url]"
  by code_simp

text \<open>On that site the pages on fees and on offers answer with status 404 and 500; the
  run in which they answer with status 200 returns the same records, those of the two
  pages included, and requests the same addresses. With the other order of iteration it
  returns the records of the page on fees before those of the page on offers.\<close>

theorem status_code_not_inspected_witness:
  "requests_get open_world fees_url = Inr \<lparr>status_code = 404, response_text = ''fees''\<rparr>
   \<and> requests_get open_world offers_url = Inr \<lparr>status_code = 500, response_text = ''offers''\<rparr>
   \<and> open_get_ok fees_url = Inr \<lparr>status_code = 200, response_text = ''fees''\<rparr>
   \<and> open_get_ok offers_url = Inr \<lparr>status_code = 200, response_text = ''offers''\<rparr>
   \<and> fst (scrape_logic (open_world\<lparr>requests_get := open_get_ok, set_order := set_order open_world\<rparr>)
          seed_url [''Millennia''])
       = fst (scrape_logic open_world seed_url [''Millennia''])
   \<and> requested (snd (scrape_logic
          (open_world\<lparr>requests_get := open_get_ok, set_order := set_order open_world\<rparr>)
          seed_url [''Millennia'']))
       = requested (snd (scrape_logic open_world seed_url [''Millennia'']))
   \<and> scrape_logic open_world seed_url [''Millennia''] =
     ([\<lparr>item_keyword = ''Millennia'', item_context = ''Millennia card'',
          item_type = TextBlock, item_url = seed_url\<rparr>,
       \<lparr>item_keyword = ''Millennia'',
          item_context = ''Millennia card Fees Offers Millennia partner'',
          item_type = TextBlock, item_url = seed_url\<rparr>,
       \<lparr>item_keyword = ''Millennia'', item_context = ''Millennia offers'',
          item_type = TextBlock, item_url = offers_url\<rparr>,
       \<lparr>item_keyword = ''Millennia'', item_context = ''Millennia fee waived'',
          item_type = TextBlock, item_url = fees_url\<rparr>,
       \<lparr>item_keyword = ''Millennia'', item_context = ''Millennia | 1.5%'',
          item_type = TableRow, item_url = fees_url\<rparr>],
      [Get seed_url, Sleep, Get offers_url, Sleep, Get fees_url])
   \<and> scrape_logic (open_world\<lparr>requests_get := open_get_ok, set_order := fees_first\<rparr>)
       seed_url [''Millennia''] =
     ([\<lparr>item_keyword = ''Millennia'', item_context = ''Millennia card'',
          item_type = TextBlock, item_url = seed_url\<rparr>,
       \<lparr>item_keyword = ''Millennia'',
          item_context = ''Millennia card Fees Offers Millennia partner'',
          item_type = TextBlock, item_url = seed_url\<rparr>,
       \<lparr>item_keyword = ''Millennia'', item_context = ''Millennia fee waived'',
          item_type = TextBlock, item_url = fees_url\<rparr>,
       \<lparr>item_keyword = ''Millennia'', item_context = ''Millennia | 1.5%'',
          item_type = TableRow, item_url = fees_url\<rparr>,
       \<lparr>item_keyword = ''Millennia'', item_context = ''Millennia offers'',
          item_type = TextBlock, item_url = offers_url\<rparr>],
      [Get seed_url, Sleep, Get fees_url, Sleep, Get offers_url])"
proof -
  have same: "\<forall>u. same_body (requests_get open_world u) (open_get_ok u)"
    by (simp add: open_world_def open_get_def open_get_ok_def)
  have resp: "requests_get open_world fees_url = Inr \<lparr>status_code = 404, response_text = ''fees''\<rparr>"
    "requests_get open_world offers_url = Inr \<lparr>status_code = 500, response_text = ''offers''\<rparr>"
    "open_get_ok fees_url = Inr \<lparr>status_code = 200, response_text = ''fees''\<rparr>"
    "open_get_ok offers_url = Inr \<lparr>status_code = 200, response_text = ''offers''\<rparr>"
    by code_simp+
  have run: "scrape_logic open_world seed_url [''Millennia''] =
     ([\<lparr>item_keyword = ''Millennia'', item_context = ''Millennia card'',
          item_type = TextBlock, item_url = seed_url\<rparr>,
       \<lparr>item_keyword = ''Millennia'',
          item_context = ''Millennia card Fees Offers Millennia partner'',
          item_type = TextBlock, item_url = seed_url\<rparr>,
       \<lparr>item_keyword = ''Millennia'', item_context = ''Millennia offers'',
          item_type = TextBlock, item_url = offers_url\<rparr>,
       \<lparr>item_keyword = ''Millennia'', item_context = ''Millennia fee waived'',
          item_type = TextBlock, item_url = fees_url\<rparr>,
       \<lparr>item_keyword = ''Millennia'', item_context = ''Millennia | 1.5%'',
          item_type = TableRow, item_url = fees_url\<rparr>],
      [Get seed_url, Sleep, Get offers_url, Sleep, Get fees_url])"
    by code_simp
  note eq = status_code_not_inspected
    [OF same, of "set_order open_world" seed_url "[''Millennia'']", THEN conjunct1, THEN mp, OF refl]
  have req: "requests_get open_world seed_url = Inr \<lparr>status_code = 200, response_text = ''seed''\<rparr>"
    by code_simp
  have pars: "html_parser open_world (response_text \<lparr>status_code = 200, response_text = ''seed''\<rparr>)
      = Some seed_doc"
    by code_simp
  have lnk: "find_relevant_links open_world seed_url
        (decompose [''script'', ''style'', ''nav'', ''footer'', ''noscript''] seed_doc) [''Millennia'']
      = Inr {offers_url, fees_url}"
    by code_simp
  note closed = status_code_not_inspected
    [OF same, of fees_first seed_url "[''Millennia'']", THEN conjunct2,
     unfolded req sum.case pars option.case lnk]
  have "(map (with_url seed_url)
           (get_structured_data
              (decompose [''script'', ''style'', ''nav'', ''footer'', ''noscript''] seed_doc)
              [''Millennia''])
         @ concat
             (map (\<lambda>link. case open_get_ok link of
                            Inl e \<Rightarrow> []
                          | Inr r' \<Rightarrow> records_of_body open_world [''Millennia''] link (response_text r'))
                (visit_order {seed_url}
                   (if {offers_url, fees_url} = {} then [] else fees_first {offers_url, fees_url}))),
         Get seed_url
           # concat
               (map (\<lambda>link. [Sleep, Get link])
                  (visit_order {seed_url}
                     (if {offers_url, fees_url} = {} then [] else fees_first {offers_url, fees_url}))))
      = ([\<lparr>item_keyword = ''Millennia'', item_context = ''Millennia card'',
          item_type = TextBlock, item_url = seed_url\<rparr>,
       \<lparr>item_keyword = ''Millennia'',
          item_context = ''Millennia card Fees Offers Millennia partner'',
          item_type = TextBlock, item_url = seed_url\<rparr>,
       \<lparr>item_keyword = ''Millennia'', item_context = ''Millennia fee waived'',
          item_type = TextBlock, item_url = fees_url\<rparr>,
       \<lparr>item_keyword = ''Millennia'', item_context = ''Millennia | 1.5%'',
          item_type = TableRow, item_url = fees_url\<rparr>,
       \<lparr>item_keyword = ''Millennia'', item_context = ''Millennia offers'',
          item_type = TextBlock, item_url = offers_url\<rparr>],
      [Get seed_url, Sleep, Get fees_url, Sleep, Get offers_url])"
    by code_simp
  with closed have other: "scrape_logic (open_world\<lparr>requests_get := open_get_ok, set_order := fees_first\<rparr>)
       seed_url [''Millennia''] =
     ([\<lparr>item_keyword = ''Millennia'', item_context = ''Millennia card'',
          item_type = TextBlock, item_url = seed_url\<rparr>,
       \<lparr>item_keyword = ''Millennia'',
          item_context = ''Millennia card Fees Offers Millennia partner'',
          item_type = TextBlock, item_url = seed_url\<rparr>,
       \<lparr>item_keyword = ''Millennia'', item_context = ''Millennia fee waived'',
          item_type = TextBlock, item_url = fees_url\<rparr>,
       \<lparr>item_keyword = ''Millennia'', item_context = ''Millennia | 1.5%'',
          item_type = TableRow, item_url = fees_url\<rparr>,
       \<lparr>item_keyword = ''Millennia'', item_context = ''Millennia offers'',
          item_type = TextBlock, item_url = offers_url\<rparr>],
      [Get seed_url, Sleep, Get fees_url, Sleep, Get offers_url])"
    by (rule trans)
  from resp eq [THEN conjunct1] eq [THEN conjunct2] run other show ?thesis
    by (intro conjI)
qed

section \<open>Noise tags in phase 2\<close>

text \<open>
  C8. Phase 1 removes \<open>script\<close>, \<open>style\<close>, \<open>nav\<close>, \<open>footer\<close> and \<open>noscript\<close>; phase 2 removes
  only the first four. On the small site the page on fees has a keyword below a \<open>noscript\<close>
  tag: phase 2 returns a record for it, which the cleanup of phase 1 on the same page would
  not have left.
\<close>

theorem phase2_keeps_noscript:
  "sub_page demo_world [''Millennia''] fees_url =
     [\<lparr>item_keyword = ''Millennia'', item_context = ''Millennia fee waived'',
        item_type = TextBlock, item_url = fees_url\<rparr>,
      \<lparr>item_keyword = ''Millennia'', item_context = ''Millennia | 1.5%'',
        item_type = TableRow, item_url = fees_url\<rparr>]
   \<and> map (with_url fees_url)
        (get_structured_data
           (decompose [''script'', ''style'', ''nav'', ''footer'', ''noscript''] fees_doc)
           [''Millennia'']) =
     [\<lparr>item_keyword = ''Millennia'', item_context = ''Millennia | 1.5%'',
        item_type = TableRow, item_url = fees_url\<rparr>]"
  by code_simp


section \<open>The order of the rules\<close>

text \<open>
  C1, as the code has it. Every match gets exactly one type, that of the first rule that
  applies in the order table row, section header, list item, text block, the last one
  applying always. The rules for rows and list items look for a \<open>tr\<close> and a \<open>li\<close> strictly
  above the element that contains the matched text: when that element has both above it,
  the type is the table row.
\<close>

theorem classification_by_first_rule:
  "snd (classify kw e) =
     (if find_parent ''tr'' e \<noteq> None then TableRow
      else if name e \<in> set header_tags then SectionHeader
      else if find_parent ''li'' e \<noteq> None then ListItem
      else TextBlock)
   \<and> (find_parent ''tr'' e \<noteq> None \<and> find_parent ''li'' e \<noteq> None
        \<longrightarrow> snd (classify kw e) = TableRow)"
  by (auto simp: classify_def split: option.splits)

text \<open>The claim as stated fails for a text that is a direct child of the row: the text
  lies inside a \<open>tr\<close> and inside a \<open>li\<close>, the element that contains it is the row itself,
  and the match is a list item.\<close>

theorem row_precedence_counterexample:
  "map (\<lambda>m. (fst m, name (snd m), find_parent ''li'' (snd m) \<noteq> None,
              snd (classify ''Millennia'' (snd m))))
     (find_strings ''Millennia'' (BeautifulSoup page_bare_row) page_bare_row)
     = [(''Millennia'', ''tr'', True, ListItem)]
   \<and> map item_type (get_structured_data page_bare_row [''Millennia'']) = [ListItem]"
  by code_simp

text \<open>A table cell inside a list item: the only match is a table row.\<close>

theorem classification_by_first_rule_witness:
  "map (\<lambda>m. (fst m, name (snd m), find_parent ''tr'' (snd m) \<noteq> None,
              find_parent ''li'' (snd m) \<noteq> None))
     (find_strings ''Millennia'' (BeautifulSoup page_row_in_item) page_row_in_item)
     = [(''Millennia'', ''td'', True, True)]
   \<and> snd (classify ''Millennia''
        (snd (hd (find_strings ''Millennia'' (BeautifulSoup page_row_in_item) page_row_in_item))))
     = TableRow
   \<and> map item_type (get_structured_data page_row_in_item [''Millennia'']) = [TableRow]"
proof -
  define e where
    "e = snd (hd (find_strings ''Millennia'' (BeautifulSoup page_row_in_item) page_row_in_item))"
  have run: "map (\<lambda>m. (fst m, name (snd m), find_parent ''tr'' (snd m) \<noteq> None,
              find_parent ''li'' (snd m) \<noteq> None))
     (find_strings ''Millennia'' (BeautifulSoup page_row_in_item) page_row_in_item)
     = [(''Millennia'', ''td'', True, True)]"
    by code_simp
  have out: "map item_type (get_structured_data page_row_in_item [''Millennia'']) = [TableRow]"
    by code_simp
  have above: "find_parent ''tr'' e \<noteq> None \<and> find_parent ''li'' e \<noteq> None"
    unfolding e_def by code_simp
  have "snd (classify ''Millennia'' e) = TableRow"
    by (rule classification_by_first_rule [THEN conjunct2, THEN mp, OF above])
  with run out show ?thesis
    unfolding e_def by (intro conjI)
qed

section \<open>Section headers\<close>

lemma header_is_child:
  "name e \<in> set header_tags \<Longrightarrow> \<exists>n a cs sibs p. e = Child n a cs sibs p"
  by (cases e) (simp_all add: header_tags_def)

text \<open>
  C7, as the code has it. A match whose containing element is a header element with no
  \<open>tr\<close> above it is a section header. Its snippet is the normalized text of the header, a
  colon and a space, and the normalized text of the next sibling element, when there is
  such a sibling and its normalized text is not empty; it is the normalized text of the
  parent of the header when there is no next sibling element and also when the next
  sibling element has an empty normalized text.
\<close>

theorem section_header_snippet:
  assumes "find_parent ''tr'' e = None" and "name e \<in> set header_tags"
  shows "\<exists>p. parent e = Some p
     \<and> snd (classify kw e) = SectionHeader
     \<and> (\<forall>nx. find_next_sibling e = Some nx \<and> clean_text (get_text [] False [nx]) \<noteq> [] \<longrightarrow>
          fst (classify kw e) =
            clean_text (get_text [] False (contents e)) @ '': '' @ clean_text (get_text [] False [nx]))
     \<and> (find_next_sibling e = None
          \<or> (\<exists>nx. find_next_sibling e = Some nx \<and> clean_text (get_text [] False [nx]) = []) \<longrightarrow>
          fst (classify kw e) = clean_text (get_text [] False (contents p)))"
proof -
  from assms(2) obtain n a cs sibs p where e: "e = Child n a cs sibs p"
    using header_is_child by blast
  have c: "classify kw e = (section_header_text e, SectionHeader)"
    using assms by (simp add: classify_def)
  show ?thesis
    using c unfolding e
    by (auto simp: Let_def split: option.splits)
qed

text \<open>The claim as stated fails for a bold label followed by a line break: the label has
  a next sibling element, the \<open>br\<close>, and the snippet is the text of the paragraph around
  the label, with no colon.\<close>

theorem sibling_value_counterexample:
  "map (\<lambda>m. (name (snd m), find_next_sibling (snd m), classify ''fee'' (snd m)))
     (find_strings ''fee'' (BeautifulSoup page_label_break) page_label_break)
     = [(''b'', Some (Tag ''br'' [] []), (''Fee100 per year'', SectionHeader))]
   \<and> map item_context (get_structured_data page_label_break [''fee'']) = [''Fee100 per year'']"
  by code_simp

text \<open>A term followed by its definition: the snippet joins the two with a colon.\<close>

theorem section_header_snippet_witness:
  "map (\<lambda>m. (fst m, name (snd m), find_parent ''tr'' (snd m), find_next_sibling (snd m)))
     (find_strings ''fee'' (BeautifulSoup page_term) page_term)
     = [(''Annual fee'', ''dt'', None, Some (Tag ''dd'' [] [NavigableString ''  500 per year '']))]
   \<and> classify ''fee'' (snd (hd (find_strings ''fee'' (BeautifulSoup page_term) page_term)))
     = (''Annual fee: 500 per year'', SectionHeader)
   \<and> get_structured_data page_term [''fee''] =
       [\<lparr>item_keyword = ''fee'', item_context = ''Annual fee: 500 per year'',
         item_type = SectionHeader\<rparr>]"
proof -
  define e where "e = snd (hd (find_strings ''fee'' (BeautifulSoup page_term) page_term))"
  define nx where "nx = Tag ''dd'' [] [NavigableString ''  500 per year '']"
  have run: "map (\<lambda>m. (fst m, name (snd m), find_parent ''tr'' (snd m), find_next_sibling (snd m)))
     (find_strings ''fee'' (BeautifulSoup page_term) page_term)
     = [(''Annual fee'', ''dt'', None, Some (Tag ''dd'' [] [NavigableString ''  500 per year '']))]"
    by code_simp
  have out: "get_structured_data page_term [''fee''] =
       [\<lparr>item_keyword = ''fee'', item_context = ''Annual fee: 500 per year'',
         item_type = SectionHeader\<rparr>]"
    by code_simp
  have h1: "find_parent ''tr'' e = None" and h2: "name e \<in> set header_tags"
    unfolding e_def by code_simp+
  have sib: "find_next_sibling e = Some nx \<and> clean_text (get_text [] False [nx]) \<noteq> []"
    unfolding e_def nx_def by code_simp
  have joined: "clean_text (get_text [] False (contents e)) @ '': '' @ clean_text (get_text [] False [nx])
      = ''Annual fee: 500 per year''"
    unfolding e_def nx_def by code_simp
  from section_header_snippet [OF h1 h2, of "''fee''"]
  obtain p where ty: "snd (classify ''fee'' e) = SectionHeader"
    and val: "\<forall>nx. find_next_sibling e = Some nx \<and> clean_text (get_text [] False [nx]) \<noteq> [] \<longrightarrow>
          fst (classify ''fee'' e) =
            clean_text (get_text [] False (contents e)) @ '': '' @ clean_text (get_text [] False [nx])"
    by (elim exE conjE)
  from val [THEN spec, THEN mp, OF sib] joined
  have "fst (classify ''fee'' e) = ''Annual fee: 500 per year''"
    by (rule trans)
  with ty have "classify ''fee'' e = (''Annual fee: 500 per year'', SectionHeader)"
    by (rule_tac prod_eqI) simp_all
  with run out show ?thesis
    unfolding e_def by (intro conjI)
qed

section \<open>The truncation\<close>

lemma find_from_ge: "- 1 \<le> find_from i sub s"
  by (induction s arbitrary: i) auto

lemma find_from_least:
  "sublist sub s \<Longrightarrow>
     \<exists>k. find_from i sub s = int (i + k) \<and> k \<le> length s \<and> prefix sub (drop k s)
       \<and> (\<forall>j<k. \<not> prefix sub (drop j s))"
proof (induction s arbitrary: i)
  case Nil
  then show ?case by simp
next
  case (Cons c cs)
  show ?case
  proof (cases "prefix sub (c # cs)")
    case True
    then show ?thesis by (intro exI [of _ 0]) simp
  next
    case False
    with Cons.prems have "sublist sub cs" by (simp add: sublist_Cons_right)
    from Cons.IH [OF this, of "Suc i"] obtain k where
      k: "find_from (Suc i) sub cs = int (Suc i + k)" "k \<le> length cs" "prefix sub (drop k cs)"
         "\<forall>j<k. \<not> prefix sub (drop j cs)"
      by blast
    have "\<forall>j<Suc k. \<not> prefix sub (drop j (c # cs))"
    proof (intro allI impI)
      fix j assume "j < Suc k"
      then show "\<not> prefix sub (drop j (c # cs))"
        using False k(4) by (cases j) auto
    qed
    with False k show ?thesis by (intro exI [of _ "Suc k"]) simp
  qed
qed

lemma slice_sublist: "sublist (slice s a b) s"
  unfolding slice_def by (rule sublist_order.order.trans [OF sublist_drop sublist_take])

lemma slice_window:
  "0 \<le> i \<Longrightarrow>
     slice s (max 0 (i - 50)) (min (int (length s)) (i + 150))
       = drop (nat i - 50) (take (nat i + 150) s)"
  by (auto simp: slice_def slice_index_def min_def max_def nat_diff_distrib nat_add_distrib)

lemma slice_window_length:
  "- 1 \<le> i \<Longrightarrow> length (slice s (max 0 (i - 50)) (min (int (length s)) (i + 150))) \<le> 200"
  by (auto simp: slice_def slice_index_def min_def max_def)

lemma window_contains:
  assumes "prefix k (drop i s)" and "length k \<le> 150"
  shows "sublist k (drop (i - 50) (take (i + 150) s))"
proof -
  from assms(1) obtain r where r: "drop i s = k @ r" by (auto simp: prefix_def)
  have s: "s = take i s @ k @ r" using r by (metis append_take_drop_id)
  show ?thesis
  proof (cases "i \<le> length s")
    case True
    then have len: "length (take i s) = i" by simp
    have "take (i + 150) s = take i s @ take 150 (k @ r)"
      by (subst s, subst take_append) (simp add: len True min_absorb2)
    also have "take 150 (k @ r) = k @ take (150 - length k) r"
      using assms(2) by simp
    finally have t: "take (i + 150) s = take i s @ k @ take (150 - length k) r" .
    have "drop (i - 50) (take (i + 150) s)
        = drop (i - 50) (take i s) @ k @ take (150 - length k) r"
      unfolding t using len by simp
    then show ?thesis by simp
  next
    case False
    with r have "k = []" by simp
    then show ?thesis by simp
  qed
qed

text \<open>Lower-casing a text without U+0130 is character by character; a text keeps its
  length under lower-casing only if U+0130 does not occur in it.\<close>

lemma lower_append: "lower (xs @ ys) = lower xs @ lower ys"
  by (simp add: lower_def)

lemma lower_plain: "dotted_I \<notin> set s \<Longrightarrow> lower s = map tolower s"
  by (induction s) (auto simp: lower_def lower_char_def)

lemma length_lower_ge: "length s \<le> length (lower s)"
  by (induction s) (simp_all add: lower_def lower_char_def)

lemma same_length_plain: "length (lower s) = length s \<Longrightarrow> dotted_I \<notin> set s"
proof (induction s)
  case Nil
  show ?case by simp
next
  case (Cons c cs)
  have split: "length (lower (c # cs)) = length (lower_char c) + length (lower cs)"
    by (simp add: lower_def)
  from Cons.prems split length_lower_ge [of cs]
  have "length (lower_char c) \<le> 1" and "length (lower cs) = length cs"
    by (simp_all add: lower_char_def split: if_splits)
  with Cons.IH show ?case by (auto simp: lower_char_def)
qed

lemma lower_dots: "lower ''...'' = ''...''"
  by (simp add: lower_def lower_char_def tolower_def dotted_I_def)

lemma classify_text_block:
  "snd (classify kw e) = TextBlock \<Longrightarrow> fst (classify kw e) = truncated kw (container_text e)"
  by (auto simp: classify_def container_text_def split: option.splits if_splits)

text \<open>
  C2, as the code has it. For a match classified as a text block whose normalized
  container text has more than 300 characters, the snippet is the ellipsis, a window of at
  most 200 characters of that text, and the ellipsis. When the lower-cased keyword occurs in
  the lower-cased text, the window starts up to 50 characters before the index at which the
  first occurrence starts there and ends up to 150 characters after that index. The snippet
  then contains the keyword, letter case ignored, provided lower-casing acts on the text
  character by character, each character giving one character, so that the index found in
  the lower-cased text is the index of the occurrence in the text, and the lower-cased
  keyword has at most 150 characters.
\<close>

theorem truncated_window:
  assumes "snd (classify kw e) = TextBlock" and "300 < length (container_text e)"
  shows "\<exists>w. fst (classify kw e) = ''...'' @ w @ ''...''
      \<and> sublist w (container_text e) \<and> length w \<le> 200
      \<and> (sublist (lower kw) (lower (container_text e)) \<longrightarrow>
          (\<exists>i. prefix (lower kw) (drop i (lower (container_text e)))
             \<and> (\<forall>j<i. \<not> prefix (lower kw) (drop j (lower (container_text e))))
             \<and> w = drop (i - 50) (take (i + 150) (container_text e)))
          \<and> (lower (container_text e) = map tolower (container_text e)
               \<and> length (lower kw) \<le> 150
             \<longrightarrow> sublist (lower kw) (lower (fst (classify kw e)))))"
proof -
  define T where "T = container_text e"
  define idx where "idx = str_find (lower T) (lower kw)"
  define w where "w = slice T (max 0 (idx - 50)) (min (int (length T)) (idx + 150))"
  have snip: "fst (classify kw e) = ''...'' @ w @ ''...''"
    using assms by (simp add: classify_text_block truncated_def Let_def T_def idx_def w_def)
  have sub: "sublist w T" unfolding w_def by (rule slice_sublist)
  have "- 1 \<le> idx" unfolding idx_def str_find_def by (rule find_from_ge)
  then have len: "length w \<le> 200" unfolding w_def by (rule slice_window_length)
  have occ: "(\<exists>i. prefix (lower kw) (drop i (lower T))
             \<and> (\<forall>j<i. \<not> prefix (lower kw) (drop j (lower T)))
             \<and> w = drop (i - 50) (take (i + 150) T))
          \<and> (lower T = map tolower T \<and> length (lower kw) \<le> 150
              \<longrightarrow> sublist (lower kw) (lower (fst (classify kw e))))"
    if "sublist (lower kw) (lower T)"
  proof -
    from find_from_least [OF that, of 0] obtain k where
      k: "idx = int k" "prefix (lower kw) (drop k (lower T))"
         "\<forall>j<k. \<not> prefix (lower kw) (drop j (lower T))"
      unfolding idx_def str_find_def by auto
    have win: "w = drop (k - 50) (take (k + 150) T)"
      unfolding w_def k(1) by (subst slice_window) simp_all
    have inner: "sublist (lower kw) (lower (fst (classify kw e)))"
      if same: "lower T = map tolower T" and short: "length (lower kw) \<le> 150"
    proof -
      have "length (lower T) = length T" unfolding same by simp
      then have plain: "dotted_I \<notin> set T" by (rule same_length_plain)
      have "set w \<subseteq> set T"
        unfolding win by (meson set_drop_subset set_take_subset subset_trans)
      with plain have "dotted_I \<notin> set w" by blast
      then have "lower w = map tolower w" by (rule lower_plain)
      also have "\<dots> = drop (k - 50) (take (k + 150) (map tolower T))"
        unfolding win by (simp add: drop_map take_map)
      also have "\<dots> = drop (k - 50) (take (k + 150) (lower T))"
        using plain by (simp add: lower_plain)
      finally have lw: "lower w = drop (k - 50) (take (k + 150) (lower T))" .
      have "sublist (lower kw) (lower w)"
        unfolding lw by (rule window_contains [OF k(2) short])
      also have "sublist (lower w) (''...'' @ lower w @ ''...'')" by (rule sublist_appendI)
      finally show ?thesis unfolding snip lower_append lower_dots .
    qed
    have ex: "\<exists>i. prefix (lower kw) (drop i (lower T))
             \<and> (\<forall>j<i. \<not> prefix (lower kw) (drop j (lower T)))
             \<and> w = drop (i - 50) (take (i + 150) T)"
      by (rule exI [of _ k]) (intro conjI k(2) k(3) win)
    have imp: "lower T = map tolower T \<and> length (lower kw) \<le> 150
        \<longrightarrow> sublist (lower kw) (lower (fst (classify kw e)))"
      by (rule impI, erule conjE) (rule inner)
    show ?thesis by (rule conjI [OF ex imp])
  qed
  have "fst (classify kw e) = ''...'' @ w @ ''...''
      \<and> sublist w T \<and> length w \<le> 200
      \<and> (sublist (lower kw) (lower T) \<longrightarrow>
          (\<exists>i. prefix (lower kw) (drop i (lower T))
             \<and> (\<forall>j<i. \<not> prefix (lower kw) (drop j (lower T)))
             \<and> w = drop (i - 50) (take (i + 150) T))
          \<and> (lower T = map tolower T \<and> length (lower kw) \<le> 150
              \<longrightarrow> sublist (lower kw) (lower (fst (classify kw e)))))"
    by (rule conjI [OF snip conjI [OF sub conjI [OF len impI [OF occ]]]])
  then show ?thesis unfolding T_def by (rule exI)
qed


text \<open>The claim as stated fails in three ways. A keyword of 151 characters at the start
  of a paragraph of 301 is cut by the window. A keyword with two spaces between its words
  matches a text node with the same two spaces; in the normalized text there is one space,
  the search for the keyword finds nothing, and the window is the first 149 characters of
  the text. In a text that starts with 120 times U+0130 the lower-cased text is 120
  characters longer; the word \<open>fee\<close> starts at index 121 of the text and at index 241 of
  the lower-cased text, and the window taken around 241 holds only what follows the
  word.\<close>

theorem snippet_without_keyword_counterexample:
  "get_structured_data page_long_keyword [replicate 151 (CHR ''k'')] =
     [\<lparr>item_keyword = replicate 151 (CHR ''k''),
       item_context = ''...'' @ replicate 150 (CHR ''k'') @ ''...'',
       item_type = TextBlock\<rparr>]
   \<and> \<not> sublist (lower (replicate 151 (CHR ''k'')))
         (lower (''...'' @ replicate 150 (CHR ''k'') @ ''...''))
   \<and> get_structured_data page_spaced_keyword [''annual  fee''] =
     [\<lparr>item_keyword = ''annual  fee'',
       item_context = ''...'' @ replicate 149 (CHR ''x'') @ ''...'',
       item_type = TextBlock\<rparr>]
   \<and> \<not> sublist (lower ''annual  fee'') (lower (''...'' @ replicate 149 (CHR ''x'') @ ''...''))
   \<and> get_structured_data page_dotted [''fee''] =
     [\<lparr>item_keyword = ''fee'',
       item_context = ''...'' @ replicate 134 (CHR ''z'') @ ''...'',
       item_type = TextBlock\<rparr>]
   \<and> \<not> sublist (lower ''fee'') (lower (''...'' @ replicate 134 (CHR ''z'') @ ''...''))"
  by code_simp

text \<open>A text of 305 characters with the keyword at index 61: the window is the 50
  characters before it and the 150 from its start.\<close>

theorem truncated_window_witness:
  "classify ''fee'' (snd (hd (find_strings ''fee'' (BeautifulSoup page_long_text) page_long_text)))
     = (''...'' @ replicate 49 (CHR ''a'') @ '' Fee '' @ replicate 146 (CHR ''b'') @ ''...'',
        TextBlock)
   \<and> length (container_text
         (snd (hd (find_strings ''fee'' (BeautifulSoup page_long_text) page_long_text)))) = 305
   \<and> sublist (lower ''fee'')
        (lower (fst (classify ''fee''
           (snd (hd (find_strings ''fee'' (BeautifulSoup page_long_text) page_long_text))))))"
proof -
  define e where
    "e = snd (hd (find_strings ''fee'' (BeautifulSoup page_long_text) page_long_text))"
  have cls: "classify ''fee'' e
     = (''...'' @ replicate 49 (CHR ''a'') @ '' Fee '' @ replicate 146 (CHR ''b'') @ ''...'',
        TextBlock)"
    unfolding e_def by code_simp
  have ct: "container_text e = replicate 60 (CHR ''a'') @ '' Fee '' @ replicate 240 (CHR ''b'')"
    unfolding e_def by code_simp
  have size: "length (container_text e) = 305"
    unfolding ct by simp
  have h1: "snd (classify ''fee'' e) = TextBlock"
    unfolding cls by (rule snd_conv)
  have h2: "300 < length (container_text e)"
    unfolding size by simp
  have occ: "sublist (lower ''fee'') (lower (container_text e))"
    unfolding ct by code_simp
  have same: "lower (container_text e) = map tolower (container_text e)"
    unfolding ct by code_simp
  have short: "length (lower ''fee'') \<le> 150"
    by code_simp
  from truncated_window [OF h1 h2] obtain w where
    imp: "sublist (lower ''fee'') (lower (container_text e)) \<longrightarrow>
          (\<exists>i. prefix (lower ''fee'') (drop i (lower (container_text e)))
             \<and> (\<forall>j<i. \<not> prefix (lower ''fee'') (drop j (lower (container_text e))))
             \<and> w = drop (i - 50) (take (i + 150) (container_text e)))
          \<and> (lower (container_text e) = map tolower (container_text e)
               \<and> length (lower ''fee'') \<le> 150
             \<longrightarrow> sublist (lower ''fee'') (lower (fst (classify ''fee'' e))))"
    by (elim exE conjE)
  note inst = imp [THEN mp, OF occ, THEN conjunct2, THEN mp, OF conjI, OF same short]
  from cls size inst show ?thesis
    unfolding e_def by (intro conjI)
qed

end
